theory Spec2Isabelle
  imports Main "HOL-Library.Extended_Nat"
begin

section \<open>fetchSSE: a shallow embedding\<close>

text \<open>
  The source is one function, \<^verbatim>\<open>fetchSSE(url, options)\<close>, whose closure variables are the
  state of one connection and whose inner functions and promise callbacks are the
  operations on it. Here the closure variables and the fields of the returned object
  \<^verbatim>\<open>sse\<close> are one record, every inner function takes the record and returns the new
  one, and every promise callback is a function that the environment (the fetch
  transport, the stream reader, the timer) runs with the value it delivers.
\<close>

subsection \<open>Strings\<close>

text \<open>
  A string is a list of characters, each standing for one code unit of the JavaScript
  string. Isabelle's characters are 8 bits wide, so the texts of the model are those with
  code units below 256. \<^verbatim>\<open>String.prototype.trim\<close> removes white space and line
  terminators; below 256 these are TAB, LF, VT, FF, CR, SPACE and NBSP. (Above 255
  JavaScript also removes U+1680, U+2000 to U+200A, U+2028, U+2029, U+202F, U+205F, U+3000
  and U+FEFF, which no text of the model contains.)
\<close>

definition is_ws :: "char \<Rightarrow> bool" where
  "is_ws c = (c \<in> {CHR 0x09, CHR 0x0A, CHR 0x0B, CHR 0x0C, CHR 0x0D, CHR 0x20, CHR 0xA0})"

definition trim :: "string \<Rightarrow> string" where
  "trim s = rev (dropWhile is_ws (rev (dropWhile is_ws s)))"

text \<open>\<^verbatim>\<open>s.indexOf(c)\<close> for a one-character \<open>c\<close>; \<open>None\<close> is the source's \<open>-1\<close>.\<close>

fun indexOf :: "char \<Rightarrow> string \<Rightarrow> nat option" where
  "indexOf c [] = None"
| "indexOf c (x # xs) = (if x = c then Some 0 else map_option Suc (indexOf c xs))"

text \<open>\<^verbatim>\<open>buffer.indexOf('\n\n')\<close>: the index of the first two consecutive line feeds.\<close>

fun indexOf_nn :: "string \<Rightarrow> nat option" where
  "indexOf_nn [] = None"
| "indexOf_nn [x] = None"
| "indexOf_nn (x # y # xs) =
     (if x = CHR 0x0A \<and> y = CHR 0x0A then Some 0
      else map_option Suc (indexOf_nn (y # xs)))"

text \<open>\<^verbatim>\<open>s.split('\n')\<close>: never empty; the empty string gives one empty part.\<close>

fun js_split :: "string \<Rightarrow> string list" where
  "js_split [] = [[]]"
| "js_split (c # cs) =
     (if c = CHR 0x0A then [] # js_split cs
      else (case js_split cs of [] \<Rightarrow> [[c]] | p # ps \<Rightarrow> (c # p) # ps))"

subsection \<open>Numbers and parseInt\<close>

text \<open>
  The numbers that a delay can be: an integer that is a double, or one of the two
  infinities. \<^verbatim>\<open>parseInt\<close> returns such a number or NaN, and the caller's \<^verbatim>\<open>retryDelay\<close> is
  taken to be one (no fraction, no NaN). The source hands a delay to \<^verbatim>\<open>setTimeout\<close> and
  to a template literal only, which do not tell \<open>-0\<close> from \<open>0\<close>; neither does the model.
\<close>

datatype number = Finite int | PlusInfinity | MinusInfinity

text \<open>The number of binary digits of an integer that is not negative.\<close>

function binary_length :: "int \<Rightarrow> nat" where
  "binary_length n = (if n \<le> 0 then 0 else Suc (binary_length (n div 2)))"
  by pat_completeness auto

termination binary_length
  by (relation "measure nat") auto

declare binary_length.simps [simp del]

text \<open>
  The double nearest to an integer that is not negative, ties to the even significand
  of 53 bits; \<open>None\<close> when that is beyond the largest double, where the result is
  Infinity.
\<close>

definition to_double :: "int \<Rightarrow> int option" where
  "to_double n =
     (if n < 2 ^ 53 then Some n
      else let e = binary_length n - 53;
               q = n div 2 ^ e;
               r = n mod 2 ^ e;
               q' = (if 2 ^ e < 2 * r \<or> (2 * r = 2 ^ e \<and> odd q) then q + 1 else q)
           in if 2 ^ 1024 \<le> q' * 2 ^ e then None else Some (q' * 2 ^ e))"

text \<open>
  \<^verbatim>\<open>parseInt(value, 10)\<close>: leading white space is skipped, one sign is read, then the
  longest run of decimal digits; with no digit the result is NaN, here \<open>None\<close>. Whatever
  follows the digits is ignored. The result is the double nearest to the integer that
  the digits denote. (ECMAScript lets an engine replace the digits behind the 20th by
  zeros first; the engines round the integer itself, as is done here.)
\<close>

definition is_digit :: "char \<Rightarrow> bool" where
  "is_digit c = (48 \<le> (of_char c :: nat) \<and> (of_char c :: nat) \<le> 57)"

definition digit_val :: "char \<Rightarrow> int" where
  "digit_val c = int (of_char c) - 48"

definition digits_val :: "string \<Rightarrow> int" where
  "digits_val ds = foldl (\<lambda>acc d. 10 * acc + digit_val d) 0 ds"

definition parseInt :: "string \<Rightarrow> number option" where
  "parseInt s =
     (let t = dropWhile is_ws s;
          neg = (case t of [] \<Rightarrow> False | c # _ \<Rightarrow> c = CHR ''-'');
          u = (case t of [] \<Rightarrow> [] | c # cs \<Rightarrow> if c = CHR ''-'' \<or> c = CHR ''+'' then cs else t);
          ds = takeWhile is_digit u
      in if ds = [] then None
         else (case to_double (digits_val ds) of
                 None \<Rightarrow> Some (if neg then MinusInfinity else PlusInfinity)
               | Some m \<Rightarrow> Some (Finite (if neg then - m else m))))"

subsection \<open>The frame parser\<close>

text \<open>What \<^verbatim>\<open>parseSSEEvent\<close> returns; \<open>None\<close> is the source's \<open>null\<close>.\<close>

record parsed =
  eventName :: string
  eventDataString :: string
  eventId :: "string option"
  retry :: "number option"

text \<open>The body of the \<^verbatim>\<open>forEach\<close>: one line of the frame, applied to the four variables.\<close>

definition parse_part :: "parsed \<Rightarrow> string \<Rightarrow> parsed" where
  "parse_part acc part =
     (case indexOf CHR '':'' part of
        None \<Rightarrow> acc
      | Some colonIndex \<Rightarrow>
          let key = trim (take colonIndex part);
              val = trim (drop (colonIndex + 1) part)
          in if key = ''event'' then acc\<lparr>eventName := val\<rparr>
             else if key = ''data'' then
               acc\<lparr>eventDataString :=
                     eventDataString acc
                     @ (if eventDataString acc \<noteq> [] then [CHR 0x0A] else []) @ val\<rparr>
             else if key = ''id'' then acc\<lparr>eventId := Some val\<rparr>
             else if key = ''retry'' then
               (case parseInt val of None \<Rightarrow> acc | Some retryValue \<Rightarrow> acc\<lparr>retry := Some retryValue\<rparr>)
             else acc)"

definition parseSSEEvent :: "string \<Rightarrow> parsed" where
  "parseSSEEvent eventData =
     foldl parse_part
       \<lparr>eventName = ''message'', eventDataString = [], eventId = None, retry = None\<rparr>
       (js_split eventData)"

subsection \<open>Exceptions, listeners and the world they act on\<close>

text \<open>
  A thrown value is modelled by the two properties the source reads from it:
  \<^verbatim>\<open>error.message\<close> and \<^verbatim>\<open>error.status\<close> (\<open>None\<close> when the property is missing).
\<close>

record js_error =
  message :: string
  status :: "nat option"

text \<open>
  A call either returns or throws; both leave a state behind (the assignments made
  before a throw are not undone).
\<close>

datatype 'a outcome = Returned 'a | Threw js_error 'a

text \<open>
  The object that \<^verbatim>\<open>dispatchEvent\<close> hands to the listeners. The field \<^verbatim>\<open>target\<close>, a
  reference to the connection object itself, has no counterpart here.
\<close>

record event_object =
  ev_type :: string
  ev_data :: "string option"
  ev_lastEventId :: "string option"
  ev_origin :: string

text \<open>
  A listener is the caller's code. It is modelled by what it does to the caller's own
  state, the world \<open>'w\<close>, and by whether it throws. A listener that calls back into the
  connection object while it is being run (that closes it, or adds a listener) is outside
  the model.
\<close>

type_synonym 'w callback = "event_object \<Rightarrow> 'w \<Rightarrow> 'w outcome"

subsection \<open>Options and state\<close>

text \<open>
  The request body: \<open>PlainObject j\<close> is an object that is no FormData, URLSearchParams
  or ReadableStream, with \<open>j\<close> the text \<^verbatim>\<open>JSON.stringify\<close> gives for it; \<open>RawBody r\<close> is any
  other value, passed to fetch as it is.
\<close>

datatype body = PlainObject string | RawBody string

text \<open>The object the source builds for the retry decision.\<close>

record retry_error =
  err_retryCount :: nat
  lastError :: string
  err_status :: "nat option"

text \<open>
  The options of \<^verbatim>\<open>fetchSSE\<close>, after the defaults of the destructuring. In place of the
  URL the record holds \<open>url_origin\<close>, the value of \<^verbatim>\<open>new URL(url).origin\<close>, \<open>None\<close> when
  that constructor throws (a relative or malformed URL). The field \<open>http_method\<close> is the option \<^verbatim>\<open>method\<close>. \<open>maxRetries\<close> is a natural
  number or \<open>\<infinity>\<close>. \<open>customRetryLogic\<close> is a function that returns a truth value and
  neither throws nor touches the connection.
\<close>

record options =
  url_origin :: "string option"
  http_method :: string
  headers :: "string \<rightharpoonup> string"
  body :: "body option"
  credentials :: string
  mode :: string
  retryDelay :: number
  maxRetries :: enat
  customRetryLogic :: "(retry_error \<Rightarrow> nat \<Rightarrow> bool) option"
  cache :: string
  redirect :: string
  referrer :: "string option"
  referrerPolicy :: "string option"
  integrity :: "string option"
  keepalive :: "bool option"

text \<open>The second argument of \<^verbatim>\<open>fetch\<close>; the abort signal is left out.\<close>

record fetch_options =
  fo_method :: string
  fo_headers :: "string \<rightharpoonup> string"
  fo_credentials :: string
  fo_mode :: string
  fo_cache :: string
  fo_redirect :: string
  fo_referrer :: "string option"
  fo_referrerPolicy :: "string option"
  fo_integrity :: "string option"
  fo_keepalive :: "bool option"
  fo_body :: "string option"

text \<open>
  The connection: the fields of the object \<^verbatim>\<open>sse\<close> and the closure variables.
  \<^item> \<open>abortController\<close> and \<open>reader\<close>: \<open>None\<close> is \<open>null\<close>, \<open>Some b\<close> an object that has
    (\<open>b\<close>) or has not been aborted, respectively cancelled;
  \<^item> \<open>retryTimeout\<close>: the pending reconnection timer with the delay it was armed with,
    \<open>None\<close> when no timer is pending;
  \<^item> \<open>buffer\<close>: the variable of that name of the response callback;
  \<^item> \<open>fetched\<close>: the calls of \<^verbatim>\<open>fetch\<close> made so far, oldest first.
\<close>

record 'w sse =
  listeners :: "string \<rightharpoonup> 'w callback list"
  onmessage :: "'w callback option"
  onerror :: "'w callback option"
  onopen :: "'w callback option"
  readyState :: nat
  abortController :: "bool option"
  reader :: "bool option"
  isClosed :: bool
  retryTimeout :: "number option"
  retryCount :: nat
  lastEventId :: "string option"
  currentRetryDelay :: number
  buffer :: string
  fetched :: "fetch_options list"

subsection \<open>The listener registry and dispatch\<close>

text \<open>
  \<^verbatim>\<open>this.listeners\<close> is a plain object, so a name that \<^verbatim>\<open>Object.prototype\<close> defines is
  found there although no listener was ever stored under it. Of the methods of the
  object, \<^verbatim>\<open>removeEventListener\<close> (which compares functions by reference) and
  \<^verbatim>\<open>addJSONEventListener\<close> (which wraps a listener in a \<^verbatim>\<open>JSON.parse\<close>) are left out.
\<close>

definition object_prototype_names :: "string list" where
  "object_prototype_names =
     [''constructor'', ''__proto__'', ''hasOwnProperty'', ''isPrototypeOf'',
      ''propertyIsEnumerable'', ''toLocaleString'', ''toString'', ''valueOf'',
      ''__defineGetter__'', ''__defineSetter__'', ''__lookupGetter__'', ''__lookupSetter__'']"

text \<open>
  A TypeError of the engine. Its message is the engine's own wording; the texts below
  stand for it and no property depends on them.
\<close>

definition type_error :: "string \<Rightarrow> js_error" where
  "type_error m = \<lparr>message = m, status = None\<rparr>"

text \<open>
  \<^verbatim>\<open>addEventListener\<close>: for a name of \<^verbatim>\<open>Object.prototype\<close> the inherited value is truthy and
  has no \<^verbatim>\<open>push\<close>, and the call throws a TypeError.
\<close>

definition addEventListener :: "string \<Rightarrow> 'w callback \<Rightarrow> 'w sse \<Rightarrow> 'w sse outcome" where
  "addEventListener event cb s =
     (case listeners s event of
        None \<Rightarrow>
          if event \<in> set object_prototype_names
          then Threw (type_error ''this.listeners[event].push is not a function'') s
          else Returned (s\<lparr>listeners := (listeners s)(event \<mapsto> [cb])\<rparr>)
      | Some cbs \<Rightarrow> Returned (s\<lparr>listeners := (listeners s)(event \<mapsto> cbs @ [cb])\<rparr>))"

text \<open>The loop \<^verbatim>\<open>for (const cb of callbacks) cb(eventObject)\<close>: nothing catches a throw.\<close>

fun call_all :: "'w callback list \<Rightarrow> event_object \<Rightarrow> 'w \<Rightarrow> 'w outcome" where
  "call_all [] eventObject w = Returned w"
| "call_all (cb # cbs) eventObject w =
     (case cb eventObject w of
        Threw e w' \<Rightarrow> Threw e w'
      | Returned w' \<Rightarrow> call_all cbs eventObject w')"

definition call_handler :: "'w callback option \<Rightarrow> event_object \<Rightarrow> 'w \<Rightarrow> 'w outcome" where
  "call_handler h eventObject w = (case h of None \<Rightarrow> Returned w | Some f \<Rightarrow> f eventObject w)"

text \<open>
  \<^verbatim>\<open>this.listeners[event] || []\<close>: the registered listeners, the empty list when there are
  none, and \<open>None\<close> when the name is inherited from \<^verbatim>\<open>Object.prototype\<close>: the value found
  is truthy and not iterable, and the loop throws a TypeError.
\<close>

definition callbacks_of :: "'w sse \<Rightarrow> string \<Rightarrow> 'w callback list option" where
  "callbacks_of s event =
     (case listeners s event of
        Some cbs \<Rightarrow> Some cbs
      | None \<Rightarrow> if event \<in> set object_prototype_names then None else Some [])"

text \<open>The three native handlers, after the listeners.\<close>

definition native_handlers :: "'w sse \<Rightarrow> string \<Rightarrow> event_object \<Rightarrow> 'w \<Rightarrow> 'w outcome" where
  "native_handlers s event eventObject w =
     (if event = ''message'' then call_handler (onmessage s) eventObject w
      else if event = ''error'' then call_handler (onerror s) eventObject w
      else if event = ''open'' then call_handler (onopen s) eventObject w
      else Returned w)"

definition dispatchEvent ::
  "options \<Rightarrow> 'w sse \<Rightarrow> string \<Rightarrow> string option \<Rightarrow> string option \<Rightarrow> 'w \<Rightarrow> 'w outcome" where
  "dispatchEvent opts s event data' eventId' w =
     (case url_origin opts of
        None \<Rightarrow> Threw (type_error ''Invalid URL'') w
      | Some orig \<Rightarrow>
          (let eventObject =
                 \<lparr>ev_type = event, ev_data = data', ev_lastEventId = eventId', ev_origin = orig\<rparr>
           in case callbacks_of s event of
                None \<Rightarrow> Threw (type_error ''callbacks is not iterable'') w
              | Some callbacks \<Rightarrow>
                  (case call_all callbacks eventObject w of
                     Threw e w' \<Rightarrow> Threw e w'
                   | Returned w' \<Rightarrow> native_handlers s event eventObject w')))"

definition close :: "'w sse \<Rightarrow> 'w sse" where
  "close s =
     s\<lparr>isClosed := True, readyState := 2, retryTimeout := None,
       abortController := map_option (\<lambda>_. True) (abortController s),
       reader := map_option (\<lambda>_. True) (reader s),
       listeners := Map.empty\<rparr>"

definition getLastEventId :: "'w sse \<Rightarrow> string option" where
  "getLastEventId s = lastEventId s"

definition setLastEventId :: "string option \<Rightarrow> 'w sse \<Rightarrow> 'w sse" where
  "setLastEventId id' s = s\<lparr>lastEventId := id'\<rparr>"

subsection \<open>Building the request\<close>

text \<open>
  \<^verbatim>\<open>method.toUpperCase()\<close>, whose result the source only compares with POST, PUT and
  PATCH. The ASCII letters are mapped; the characters above 127, which JavaScript maps to
  characters above 127 again (and the sharp s to SS), are left alone, which does not
  change the outcome of that comparison.
\<close>

definition toUpperCase :: "string \<Rightarrow> string" where
  "toUpperCase s =
     map (\<lambda>c. if 97 \<le> (of_char c :: nat) \<and> (of_char c :: nat) \<le> 122
              then char_of ((of_char c :: nat) - 32) else c) s"

text \<open>A header value is truthy when it is there and not the empty string.\<close>

definition truthy_header :: "(string \<rightharpoonup> string) \<Rightarrow> string \<Rightarrow> bool" where
  "truthy_header h k = (case h k of None \<Rightarrow> False | Some v \<Rightarrow> v \<noteq> [])"

definition default_headers :: "string \<rightharpoonup> string" where
  "default_headers = [''Accept'' \<mapsto> ''text/event-stream'', ''Cache-Control'' \<mapsto> ''no-cache'']"

definition buildFetchOptions :: "options \<Rightarrow> 'w sse \<Rightarrow> fetch_options" where
  "buildFetchOptions opts s =
     (let fetchHeaders = default_headers ++ headers opts;
          fetchHeaders = (case lastEventId s of
                            None \<Rightarrow> fetchHeaders
                          | Some i \<Rightarrow> fetchHeaders(''Last-Event-ID'' \<mapsto> i));
          fetchOptions =
            \<lparr>fo_method = http_method opts, fo_headers = fetchHeaders,
             fo_credentials = credentials opts, fo_mode = mode opts, fo_cache = cache opts,
             fo_redirect = redirect opts, fo_referrer = referrer opts,
             fo_referrerPolicy = referrerPolicy opts, fo_integrity = integrity opts,
             fo_keepalive = keepalive opts, fo_body = None\<rparr>
      in case body opts of
           None \<Rightarrow> fetchOptions
         | Some b \<Rightarrow>
             if toUpperCase (http_method opts) \<in> set [''POST'', ''PUT'', ''PATCH''] then
               (case b of
                  PlainObject json \<Rightarrow>
                    if \<not> truthy_header fetchHeaders ''Content-Type''
                       \<and> \<not> truthy_header fetchHeaders ''content-type''
                    then fetchOptions\<lparr>fo_body := Some json,
                           fo_headers := fetchHeaders(''Content-Type'' \<mapsto> ''application/json'')\<rparr>
                    else fetchOptions\<lparr>fo_body := Some json\<rparr>
                | RawBody raw \<Rightarrow> fetchOptions\<lparr>fo_body := Some raw\<rparr>)
             else fetchOptions)"

subsection \<open>The retry policy and reconnection\<close>

definition shouldRetry :: "options \<Rightarrow> 'w sse \<Rightarrow> retry_error \<Rightarrow> bool" where
  "shouldRetry opts s error =
     (case customRetryLogic opts of
        Some f \<Rightarrow> f error (retryCount s)
      | None \<Rightarrow>
          if maxRetries opts \<le> enat (retryCount s) then False
          else if (case err_status error of
                     None \<Rightarrow> False
                   | Some st \<Rightarrow> st \<noteq> 0 \<and> st \<in> set [400, 401, 403, 404, 410])
          then False
          else True)"

text \<open>
  \<^verbatim>\<open>connect\<close> up to the call of \<^verbatim>\<open>fetch\<close>, which is recorded; what the two callbacks
  of the promise do is \<open>on_response\<close> and \<open>on_fetch_rejected\<close> below.
\<close>

definition connect :: "options \<Rightarrow> 'w sse \<Rightarrow> 'w sse" where
  "connect opts s =
     (let s1 = s\<lparr>readyState := 0, abortController := Some False\<rparr>;
          fetchOptions = buildFetchOptions opts s1
      in s1\<lparr>fetched := fetched s1 @ [fetchOptions]\<rparr>)"

text \<open>
  \<^verbatim>\<open>scheduleReconnect\<close> takes no argument: the object it hands to \<^verbatim>\<open>shouldRetry\<close> is built
  here and has no \<^verbatim>\<open>status\<close> property. What the timer's callback does is \<open>on_timeout\<close>.
\<close>

definition scheduleReconnect :: "options \<Rightarrow> 'w sse \<Rightarrow> 'w sse" where
  "scheduleReconnect opts s =
     (if isClosed s then s
      else let s1 = s\<lparr>retryTimeout := None\<rparr>;
               retryError = \<lparr>err_retryCount = retryCount s1, lastError = ''Connection lost'',
                             err_status = None\<rparr>
           in if \<not> shouldRetry opts s1 retryError then close s1
              else s1\<lparr>retryCount := Suc (retryCount s1),
                      retryTimeout := Some (currentRetryDelay s1)\<rparr>)"

definition on_timeout :: "options \<Rightarrow> 'w sse \<Rightarrow> 'w sse" where
  "on_timeout opts s =
     (case retryTimeout s of
        None \<Rightarrow> s
      | Some delay \<Rightarrow>
          let s1 = s\<lparr>retryTimeout := None\<rparr>
          in if \<not> isClosed s1 then connect opts s1 else s1)"

subsection \<open>The callbacks of the request and of the reader\<close>

text \<open>
  What the source reads of a response: \<^verbatim>\<open>status\<close>, \<^verbatim>\<open>statusText\<close> and whether \<^verbatim>\<open>body\<close> is
  there (it is \<open>null\<close> for a response without content, such as one with status 204).
\<close>

record response =
  resp_status :: nat
  statusText :: string
  resp_body :: bool

definition ok :: "response \<Rightarrow> bool" where
  "ok r = (200 \<le> resp_status r \<and> resp_status r \<le> 299)"

fun show_nat :: "nat \<Rightarrow> string" where
  "show_nat n =
     (if n < 10 then [char_of (48 + n)]
      else show_nat (n div 10) @ [char_of (48 + n mod 10)])"

text \<open>
  Both \<^verbatim>\<open>catch\<close> callbacks, of the request and of the reader, have this body (they differ
  in what they log). A throw in here is caught by nothing.
\<close>

definition catch_handler :: "options \<Rightarrow> js_error \<Rightarrow> 'w sse \<Rightarrow> 'w \<Rightarrow> ('w sse \<times> 'w) outcome" where
  "catch_handler opts error s w =
     (if \<not> isClosed s then
        (case dispatchEvent opts s ''error'' (Some (message error)) None w of
           Threw e w' \<Rightarrow> Threw e (s, w')
         | Returned w' \<Rightarrow> Returned (scheduleReconnect opts s, w'))
      else Returned (s, w))"

text \<open>
  The \<^verbatim>\<open>then\<close> callback of the request, up to its first call of \<^verbatim>\<open>read\<close>. Without a body,
  \<^verbatim>\<open>response.body.getReader()\<close> throws a TypeError.
\<close>

definition then_response ::
  "options \<Rightarrow> response \<Rightarrow> 'w sse \<Rightarrow> 'w \<Rightarrow> ('w sse \<times> 'w) outcome" where
  "then_response opts resp s w =
     (if \<not> ok resp then
        Threw \<lparr>message = ''HTTP '' @ show_nat (resp_status resp) @ '': '' @ statusText resp,
               status = Some (resp_status resp)\<rparr> (s, w)
      else
        let s1 = s\<lparr>readyState := 1, retryCount := 0\<rparr>
        in case dispatchEvent opts s1 ''open'' None None w of
             Threw e w' \<Rightarrow> Threw e (s1, w')
           | Returned w' \<Rightarrow>
               if \<not> resp_body resp then Threw (type_error ''response.body is null'') (s1, w')
               else Returned (s1\<lparr>reader := Some False, buffer := []\<rparr>, w'))"

text \<open>
  The two updates under \<^verbatim>\<open>if (eventData.trim())\<close>: of \<^verbatim>\<open>lastEventId\<close> when the frame has
  an id, of \<^verbatim>\<open>currentRetryDelay\<close> when it has a retry value.
\<close>

definition note_id_and_retry :: "parsed \<Rightarrow> 'w sse \<Rightarrow> 'w sse" where
  "note_id_and_retry ev s =
     (let s1 = (case eventId ev of None \<Rightarrow> s | Some i \<Rightarrow> s\<lparr>lastEventId := Some i\<rparr>)
      in case retry ev of None \<Rightarrow> s1 | Some r \<Rightarrow> s1\<lparr>currentRetryDelay := r\<rparr>)"

text \<open>The statements under \<^verbatim>\<open>if (eventData.trim())\<close>, for one frame.\<close>

definition process_frame ::
  "options \<Rightarrow> string \<Rightarrow> 'w sse \<Rightarrow> 'w \<Rightarrow> ('w sse \<times> 'w) outcome" where
  "process_frame opts eventData s w =
     (let ev = parseSSEEvent eventData;
          s2 = note_id_and_retry ev s
      in if eventDataString ev \<noteq> [] then
           (case dispatchEvent opts s2 (eventName ev) (Some (eventDataString ev)) (eventId ev) w of
              Threw e w' \<Rightarrow> Threw e (s2, w')
            | Returned w' \<Rightarrow> Returned (s2, w'))
         else Returned (s2, w))"

text \<open>
  The \<^verbatim>\<open>while\<close> loop over the complete frames of the buffer. A throw of a listener leaves
  the loop; the frames behind it stay in the buffer.
\<close>

function process_buffer :: "options \<Rightarrow> 'w sse \<Rightarrow> 'w \<Rightarrow> ('w sse \<times> 'w) outcome" where
  "process_buffer opts s w =
     (case indexOf_nn (buffer s) of
        None \<Rightarrow> Returned (s, w)
      | Some boundary \<Rightarrow>
          if trim (take boundary (buffer s)) \<noteq> [] then
            (case process_frame opts (take boundary (buffer s))
                    (s\<lparr>buffer := drop (boundary + 2) (buffer s)\<rparr>) w of
               Threw e \<sigma> \<Rightarrow> Threw e \<sigma>
             | Returned \<sigma> \<Rightarrow> process_buffer opts (fst \<sigma>) (snd \<sigma>))
          else process_buffer opts (s\<lparr>buffer := drop (boundary + 2) (buffer s)\<rparr>) w)"
  by pat_completeness auto

termination process_buffer
proof (relation "measure (\<lambda>(opts, s, w). length (buffer s))")
  have bound: "b + 2 \<le> length xs" if "indexOf_nn xs = Some b" for xs b
    using that by (induction xs arbitrary: b rule: indexOf_nn.induct) (auto split: if_splits)
  have keeps: "buffer (fst \<sigma>) = buffer s"
    if "process_frame opts f s w = Returned \<sigma>"
    for opts f and s :: "'a sse" and w \<sigma>
    using that
    by (auto simp: process_frame_def note_id_and_retry_def Let_def
        split: option.splits outcome.splits if_splits)
  show "wf (measure (\<lambda>(opts, s, w). length (buffer s)))"
    by simp
  show "((opts, fst \<sigma>, snd \<sigma>), (opts, s, w)) \<in> measure (\<lambda>(opts, s, w). length (buffer s))"
    if "indexOf_nn (buffer s) = Some b" and "trim (take b (buffer s)) \<noteq> []"
      and "process_frame opts (take b (buffer s)) (s\<lparr>buffer := drop (b + 2) (buffer s)\<rparr>) w
           = Returned \<sigma>"
    for opts and s :: "'a sse" and w b \<sigma>
    using bound [OF that(1)] keeps [OF that(3)] by (simp add: case_prod_beta)
  show "((opts, s\<lparr>buffer := drop (b + 2) (buffer s)\<rparr>, w), (opts, s, w))
        \<in> measure (\<lambda>(opts, s, w). length (buffer s))"
    if "indexOf_nn (buffer s) = Some b" and "\<not> trim (take b (buffer s)) \<noteq> []"
    for opts and s :: "'a sse" and w b
    using bound [OF that(1)] by simp
qed

declare process_buffer.simps [simp del]

text \<open>
  The \<^verbatim>\<open>then\<close> callback of \<^verbatim>\<open>reader.read()\<close>. The chunk is the text the decoder gives
  for the bytes read; the decoder itself is not modelled.
\<close>

datatype read_result = Done | Chunk string

definition then_read :: "options \<Rightarrow> read_result \<Rightarrow> 'w sse \<Rightarrow> 'w \<Rightarrow> ('w sse \<times> 'w) outcome" where
  "then_read opts r s w =
     (case r of
        Done \<Rightarrow> Returned (if \<not> isClosed s then scheduleReconnect opts s else s, w)
      | Chunk text \<Rightarrow> process_buffer opts (s\<lparr>buffer := buffer s @ text\<rparr>) w)"

text \<open>
  A promise chain \<^verbatim>\<open>p.then(f).catch(g)\<close>: \<open>g\<close> runs when \<open>p\<close> is rejected and when \<open>f\<close>
  throws, on the state the throw left behind.
\<close>

definition on_response :: "options \<Rightarrow> response \<Rightarrow> 'w sse \<Rightarrow> 'w \<Rightarrow> ('w sse \<times> 'w) outcome" where
  "on_response opts resp s w =
     (case then_response opts resp s w of
        Threw e \<sigma> \<Rightarrow> catch_handler opts e (fst \<sigma>) (snd \<sigma>)
      | Returned \<sigma> \<Rightarrow> Returned \<sigma>)"

definition on_read :: "options \<Rightarrow> read_result \<Rightarrow> 'w sse \<Rightarrow> 'w \<Rightarrow> ('w sse \<times> 'w) outcome" where
  "on_read opts r s w =
     (case then_read opts r s w of
        Threw e \<sigma> \<Rightarrow> catch_handler opts e (fst \<sigma>) (snd \<sigma>)
      | Returned \<sigma> \<Rightarrow> Returned \<sigma>)"

subsection \<open>Runs\<close>

text \<open>
  What can happen to a connection: the transport answers or fails, the reader delivers
  or fails, the timer fires, the caller calls a method. A throw that nothing catches (an
  unhandled rejection, or a TypeError thrown at the caller) ends the callback and leaves
  the state as it is then. The inputs are not restricted to those that the transport,
  the reader and the timer can produce in a given state: every callback is defined on
  every state, as its code is, and a property of all runs holds for the real ones.
\<close>

datatype 'w input =
    Response response
  | FetchRejected js_error
  | Read read_result
  | ReadRejected js_error
  | Timeout
  | CallClose
  | CallSetLastEventId "string option"
  | CallAddEventListener string "'w callback"

definition settled :: "'a outcome \<Rightarrow> 'a" where
  "settled r = (case r of Returned x \<Rightarrow> x | Threw e x \<Rightarrow> x)"

definition step :: "options \<Rightarrow> 'w sse \<times> 'w \<Rightarrow> 'w input \<Rightarrow> 'w sse \<times> 'w" where
  "step opts \<sigma> i =
     (case i of
        Response resp \<Rightarrow> settled (on_response opts resp (fst \<sigma>) (snd \<sigma>))
      | FetchRejected e \<Rightarrow> settled (catch_handler opts e (fst \<sigma>) (snd \<sigma>))
      | Read r \<Rightarrow> settled (on_read opts r (fst \<sigma>) (snd \<sigma>))
      | ReadRejected e \<Rightarrow> settled (catch_handler opts e (fst \<sigma>) (snd \<sigma>))
      | Timeout \<Rightarrow> (on_timeout opts (fst \<sigma>), snd \<sigma>)
      | CallClose \<Rightarrow> (close (fst \<sigma>), snd \<sigma>)
      | CallSetLastEventId i \<Rightarrow> (setLastEventId i (fst \<sigma>), snd \<sigma>)
      | CallAddEventListener event cb \<Rightarrow> (settled (addEventListener event cb (fst \<sigma>)), snd \<sigma>))"

definition run :: "options \<Rightarrow> 'w sse \<times> 'w \<Rightarrow> 'w input list \<Rightarrow> 'w sse \<times> 'w" where
  "run opts \<sigma> inputs = foldl (step opts) \<sigma> inputs"

text \<open>\<^verbatim>\<open>fetchSSE(url, options)\<close>: the initial values of the variables, then \<^verbatim>\<open>connect()\<close>.\<close>

definition fetchSSE :: "options \<Rightarrow> 'w sse" where
  "fetchSSE opts =
     connect opts
       \<lparr>listeners = Map.empty, onmessage = None, onerror = None, onopen = None,
        readyState = 0, abortController = None, reader = None, isClosed = False,
        retryTimeout = None, retryCount = 0, lastEventId = None,
        currentRetryDelay = retryDelay opts, buffer = [], fetched = []\<rparr>"

text \<open>The defaults of the destructuring of \<^verbatim>\<open>options\<close>, for a URL of the given origin.\<close>

definition default_options :: "string option \<Rightarrow> options" where
  "default_options orig =
     \<lparr>url_origin = orig, http_method = ''GET'', headers = Map.empty, body = None,
      credentials = ''include'', mode = ''cors'', retryDelay = Finite 3000, maxRetries = \<infinity>,
      customRetryLogic = None, cache = ''no-cache'', redirect = ''follow'',
      referrer = None, referrerPolicy = None, integrity = None, keepalive = None\<rparr>"

subsection \<open>Notions used to state the properties\<close>

text \<open>
  The complete frames of a text, in order: what the loop of \<open>process_buffer\<close> cuts off at
  each blank line. The rest behind the last blank line is no frame yet.
\<close>

function frames_of :: "string \<Rightarrow> string list" where
  "frames_of buf =
     (case indexOf_nn buf of
        None \<Rightarrow> []
      | Some boundary \<Rightarrow> take boundary buf # frames_of (drop (boundary + 2) buf))"
  by pat_completeness auto

termination frames_of
proof (relation "measure length")
  have bound: "b + 2 \<le> length xs" if "indexOf_nn xs = Some b" for xs b
    using that by (induction xs arbitrary: b rule: indexOf_nn.induct) (auto split: if_splits)
  show "wf (measure (length :: string \<Rightarrow> nat))"
    by simp
  show "(drop (b + 2) buf, buf) \<in> measure length" if "indexOf_nn buf = Some b" for buf b
    using bound [OF that] by simp
qed

declare frames_of.simps [simp del]

text \<open>
  The same cuts with what is left of the text behind each frame: the value of \<open>buffer\<close>
  while that frame is processed.
\<close>

function cuts_of :: "string \<Rightarrow> (string \<times> string) list" where
  "cuts_of buf =
     (case indexOf_nn buf of
        None \<Rightarrow> []
      | Some boundary \<Rightarrow>
          (take boundary buf, drop (boundary + 2) buf) # cuts_of (drop (boundary + 2) buf))"
  by pat_completeness auto

termination cuts_of
proof (relation "measure length")
  have bound: "b + 2 \<le> length xs" if "indexOf_nn xs = Some b" for xs b
    using that by (induction xs arbitrary: b rule: indexOf_nn.induct) (auto split: if_splits)
  show "wf (measure (length :: string \<Rightarrow> nat))"
    by simp
  show "(drop (b + 2) buf, buf) \<in> measure length" if "indexOf_nn buf = Some b" for buf b
    using bound [OF that] by simp
qed

declare cuts_of.simps [simp del]

text \<open>
  The loop of \<open>process_buffer\<close> on a list of cuts instead of a text: each frame in turn,
  until a listener throws. It serves to speak of the frames before and behind a given
  one; \<open>process_buffer\<close> on a text is this function on the cuts of the text (lemma
  \<open>process_buffer_cuts\<close> below).
\<close>

fun process_frames ::
  "options \<Rightarrow> (string \<times> string) list \<Rightarrow> 'w sse \<Rightarrow> 'w \<Rightarrow> ('w sse \<times> 'w) outcome" where
  "process_frames opts [] s w = Returned (s, w)"
| "process_frames opts (c # cs) s w =
     (if trim (fst c) \<noteq> [] then
        (case process_frame opts (fst c) (s\<lparr>buffer := snd c\<rparr>) w of
           Threw e \<sigma> \<Rightarrow> Threw e \<sigma>
         | Returned \<sigma> \<Rightarrow> process_frames opts cs (fst \<sigma>) (snd \<sigma>))
      else process_frames opts cs (s\<lparr>buffer := snd c\<rparr>) w)"

text \<open>An input brings a retry directive when it is a chunk that completes a frame with one.\<close>

definition carries_retry :: "'w sse \<Rightarrow> 'w input \<Rightarrow> bool" where
  "carries_retry s i =
     (case i of
        Read (Chunk text) \<Rightarrow>
          list_ex (\<lambda>f. retry (parseSSEEvent f) \<noteq> None) (frames_of (buffer s @ text))
      | _ \<Rightarrow> False)"

text \<open>
  An input writes the last event id when it is a call of \<^verbatim>\<open>setLastEventId\<close> or a chunk
  that completes a frame with an id.
\<close>

definition writes_id :: "'w sse \<Rightarrow> 'w input \<Rightarrow> bool" where
  "writes_id s i =
     (case i of
        Read (Chunk text) \<Rightarrow>
          list_ex (\<lambda>f. eventId (parseSSEEvent f) \<noteq> None) (frames_of (buffer s @ text))
      | CallSetLastEventId v \<Rightarrow> True
      | _ \<Rightarrow> False)"

text \<open>
  A run none of whose inputs has the property \<open>P\<close> in the state it meets, for example
  one in which no input brings a retry directive.
\<close>

fun undisturbed ::
  "('w sse \<Rightarrow> 'w input \<Rightarrow> bool) \<Rightarrow> options \<Rightarrow> 'w sse \<times> 'w \<Rightarrow> 'w input list \<Rightarrow> bool" where
  "undisturbed P opts \<sigma> [] = True"
| "undisturbed P opts \<sigma> (i # inputs) =
     (\<not> P (fst \<sigma>) i \<and> undisturbed P opts (step opts \<sigma> i) inputs)"

text \<open>The field name of a line: what is before its first colon, trimmed.\<close>

definition field_name :: "string \<Rightarrow> string option" where
  "field_name part = map_option (\<lambda>i. trim (take i part)) (indexOf CHR '':'' part)"

text \<open>The value of a line: what is behind its first colon, trimmed.\<close>

definition field_value :: "string \<Rightarrow> string option" where
  "field_value part = map_option (\<lambda>i. trim (drop (i + 1) part)) (indexOf CHR '':'' part)"

text \<open>The retry directive of a line: the number of the value of a \<^verbatim>\<open>retry\<close> line.\<close>

definition retry_directive :: "string \<Rightarrow> number option" where
  "retry_directive part =
     (if field_name part = Some ''retry'' then Option.bind (field_value part) parseInt
      else None)"

text \<open>Strings joined by single line feeds.\<close>

fun join_lines :: "string list \<Rightarrow> string" where
  "join_lines [] = []"
| "join_lines [l] = l"
| "join_lines (l # m # ls) = l @ CHR 0x0A # join_lines (m # ls)"

text \<open>
  The value of a field as the specification words it: what is behind the first colon,
  without one leading space if there is one. The source does not compute this.
\<close>

definition spec_field_value :: "string \<Rightarrow> string option" where
  "spec_field_value part =
     map_option
       (\<lambda>i. case drop (i + 1) part of
                [] \<Rightarrow> []
              | c # cs \<Rightarrow> if c = CHR '' '' then cs else c # cs)
       (indexOf CHR '':'' part)"

subsection \<open>Options and listeners for the examples\<close>

text \<open>
  The default options for a URL with an origin, a listener that appends the event it
  gets to a log, and one that throws.
\<close>

definition example_options :: options where
  "example_options = default_options (Some ''https://example.org'')"

definition recorder :: "event_object list callback" where
  "recorder eventObject w = Returned (w @ [eventObject])"

definition thrower :: "event_object list callback" where
  "thrower eventObject w = Threw \<lparr>message = ''listener failed'', status = None\<rparr> w"

text \<open>
  A connection that is open: made with the example options, with the recorder added for
  the events \<^verbatim>\<open>notice\<close> and \<^verbatim>\<open>message\<close>, after a response with status 200.
\<close>

definition example_open :: "event_object list sse" where
  "example_open =
     fst (run example_options (fetchSSE example_options, [])
            [CallAddEventListener ''notice'' recorder, CallAddEventListener ''message'' recorder,
             Response \<lparr>resp_status = 200, statusText = ''OK'', resp_body = True\<rparr>])"

section \<open>Properties of the frame parser\<close>

lemma parseInt_rounds_to_double:
  "parseInt ''5000'' = Some (Finite 5000)"
  "parseInt ''9007199254740993'' = Some (Finite 9007199254740992)"
  "parseInt ''-9007199254740995'' = Some (Finite (- 9007199254740996))"
  "parseInt (replicate 310 CHR ''9'') = Some PlusInfinity"
  "parseInt ''soon'' = None"
  by code_simp+

lemma indexOf_first: "c \<notin> set k \<Longrightarrow> indexOf c (k @ c # v) = Some (length k)"
  by (induction k) auto

lemma join_lines_Cons: "join_lines (l # ls) = l @ concat (map (\<lambda>t. CHR 0x0A # t) ls)"
  by (induction ls arbitrary: l) auto

lemma js_split_no_newline: "CHR 0x0A \<notin> set l \<Longrightarrow> js_split l = [l]"
  by (induction l) auto

lemma js_split_append:
  "CHR 0x0A \<notin> set l \<Longrightarrow> js_split (l @ CHR 0x0A # r) = l # js_split r"
  by (induction l) auto

lemma js_split_join:
  "ls \<noteq> [] \<Longrightarrow> \<forall>l \<in> set ls. CHR 0x0A \<notin> set l \<Longrightarrow> js_split (join_lines ls) = ls"
  by (induction ls rule: join_lines.induct) (auto simp: js_split_no_newline js_split_append)

lemma parse_part_data_line:
  "parse_part acc (''data:'' @ v) =
     acc\<lparr>eventDataString :=
           eventDataString acc @ (if eventDataString acc \<noteq> [] then [CHR 0x0A] else []) @ trim v\<rparr>"
  by (simp add: parse_part_def trim_def is_ws_def)

lemma data_lines_fold:
  "eventDataString (foldl parse_part acc (map (\<lambda>v. ''data:'' @ v) vs)) =
     (if eventDataString acc = [] then join_lines (dropWhile (\<lambda>t. t = []) (map trim vs))
      else eventDataString acc @ concat (map (\<lambda>t. CHR 0x0A # t) (map trim vs)))"
proof (induction vs arbitrary: acc)
  case Nil
  then show ?case by simp
next
  case (Cons v vs)
  show ?case
    by (simp add: Cons.IH parse_part_data_line join_lines_Cons del: append.simps)
qed


lemma trim_decomposition:
  "\<exists>a b. v = a @ trim v @ b \<and> list_all is_ws a \<and> list_all is_ws b"
proof -
  define u where "u = dropWhile is_ws v"
  have v: "v = takeWhile is_ws v @ u"
    by (simp add: u_def)
  have "rev (dropWhile is_ws (rev u)) @ rev (takeWhile is_ws (rev u)) =
          rev (takeWhile is_ws (rev u) @ dropWhile is_ws (rev u))"
    by (simp only: rev_append)
  also have "\<dots> = u"
    by (simp only: takeWhile_dropWhile_id rev_rev_ident)
  finally have u: "u = trim v @ rev (takeWhile is_ws (rev u))"
    by (simp add: trim_def u_def)
  have a: "list_all is_ws (takeWhile is_ws v)"
    by (simp add: list_all_iff) (meson set_takeWhileD)
  have b: "list_all is_ws (rev (takeWhile is_ws (rev u)))"
    by (simp add: list_all_iff) (meson set_takeWhileD)
  from v u have "v = takeWhile is_ws v @ trim v @ rev (takeWhile is_ws (rev u))"
    by simp
  with a b show ?thesis by blast
qed

lemma trim_ends:
  assumes "trim v \<noteq> []"
  shows "\<not> is_ws (hd (trim v)) \<and> \<not> is_ws (last (trim v))"
proof -
  define u where "u = dropWhile is_ws v"
  have t: "trim v = rev (dropWhile is_ws (rev u))"
    by (simp add: trim_def u_def)
  with assms have ne: "dropWhile is_ws (rev u) \<noteq> []"
    by simp
  then have "u \<noteq> []"
    by auto
  then have hu: "\<not> is_ws (hd u)"
    unfolding u_def by (rule hd_dropWhile)
  have "last (trim v) = hd (dropWhile is_ws (rev u))"
    using ne by (simp add: t last_rev)
  moreover have "\<not> is_ws (hd (dropWhile is_ws (rev u)))"
    using ne by (rule hd_dropWhile)
  moreover have "hd (trim v) = last (dropWhile is_ws (rev u))"
    using ne by (simp add: t hd_rev)
  moreover have "last (dropWhile is_ws (rev u)) = last (rev u)"
  proof -
    have "last (takeWhile is_ws (rev u) @ dropWhile is_ws (rev u)) = last (dropWhile is_ws (rev u))"
      using ne by (rule last_appendR)
    then show ?thesis by simp
  qed
  moreover have "last (rev u) = hd u"
    using \<open>u \<noteq> []\<close> by (simp add: last_rev)
  ultimately show ?thesis
    using hu by simp
qed

lemma parse_part_at_colon:
  "CHR '':'' \<notin> set k \<Longrightarrow>
   parse_part acc (k @ CHR '':'' # v) =
     (if trim k = ''event'' then acc\<lparr>eventName := trim v\<rparr>
      else if trim k = ''data'' then
        acc\<lparr>eventDataString :=
              eventDataString acc @ (if eventDataString acc \<noteq> [] then [CHR 0x0A] else []) @ trim v\<rparr>
      else if trim k = ''id'' then acc\<lparr>eventId := Some (trim v)\<rparr>
      else if trim k = ''retry'' then
        (case parseInt (trim v) of None \<Rightarrow> acc | Some r \<Rightarrow> acc\<lparr>retry := Some r\<rparr>)
      else acc)"
  by (simp add: parse_part_def indexOf_first Let_def)

text \<open>
  Claim C3, as the code has it. A line with a colon is split at its first colon, and
  the field name and the value are both trimmed of all their leading and trailing white
  space (not of one leading space only): the value is \<open>a @ trim v @ b\<close> with \<open>a\<close> and
  \<open>b\<close> white space, and \<open>trim v\<close> neither starts nor ends with white space. Consequently
  the payload of a frame made of data lines is the trimmed values, the empty ones at the
  front dropped, joined by single line feeds, in order.
\<close>

theorem fields_trimmed_payload_joined:
  assumes "CHR '':'' \<notin> set k" and "vs \<noteq> []" and "\<forall>v \<in> set vs. CHR 0x0A \<notin> set v"
  shows "(trim k = ''event'' \<longrightarrow> eventName (parse_part acc (k @ CHR '':'' # v)) = trim v)
       \<and> (trim k = ''id'' \<longrightarrow> eventId (parse_part acc (k @ CHR '':'' # v)) = Some (trim v))
       \<and> (trim k = ''data'' \<longrightarrow>
            eventDataString (parse_part acc (k @ CHR '':'' # v)) =
              eventDataString acc @ (if eventDataString acc \<noteq> [] then [CHR 0x0A] else []) @ trim v)
       \<and> (\<exists>a b. v = a @ trim v @ b \<and> list_all is_ws a \<and> list_all is_ws b)
       \<and> (trim v \<noteq> [] \<longrightarrow> \<not> is_ws (hd (trim v)) \<and> \<not> is_ws (last (trim v)))
       \<and> eventDataString (parseSSEEvent (join_lines (map (\<lambda>v. ''data:'' @ v) vs))) =
           join_lines (dropWhile (\<lambda>t. t = []) (map trim vs))"
proof -
  have lines: "js_split (join_lines (map (\<lambda>v. ''data:'' @ v) vs)) = map (\<lambda>v. ''data:'' @ v) vs"
    using assms(2,3) by (intro js_split_join) auto
  have payload: "eventDataString (parseSSEEvent (join_lines (map (\<lambda>v. ''data:'' @ v) vs))) =
           join_lines (dropWhile (\<lambda>t. t = []) (map trim vs))"
    unfolding parseSSEEvent_def lines by (simp add: data_lines_fold)
  show ?thesis
    using assms(1) trim_decomposition [of v] trim_ends [of v] payload
    by (simp add: parse_part_at_colon)
qed

text \<open>The theorem at a line \<^verbatim>\<open> data:  y \<close> and at the frame of the two lines \<^verbatim>\<open>data: a \<close> and \<^verbatim>\<open>data:b\<close>.\<close>

theorem fields_trimmed_payload_joined_witness:
  "CHR '':'' \<notin> set '' data'' \<and> ['' a '', ''b''] \<noteq> []
   \<and> CHR 0x0A \<notin> set '' a '' \<and> CHR 0x0A \<notin> set ''b''
   \<and> eventDataString (parse_part \<lparr>eventName = ''message'', eventDataString = ''x'', eventId = None, retry = None\<rparr> '' data:  y '') = ''x\<newline>y''
   \<and> eventDataString (parseSSEEvent ''data: a \<newline>data:b'') = ''a\<newline>b''"
  using fields_trimmed_payload_joined [of " '' data''" "['' a '', ''b'']"
      "\<lparr>eventName = ''message'', eventDataString = ''x'', eventId = None, retry = None\<rparr>" "''  y ''"]
  by (simp add: trim_def is_ws_def)

text \<open>
  Claim C3 as the specification words it fails: for the line \<^verbatim>\<open>data:  a \<close> the value
  without one leading space is \<^verbatim>\<open> a \<close>, and the parser's payload is \<^verbatim>\<open>a\<close>.
\<close>

theorem value_trim_counterexample:
  "spec_field_value ''data:  a '' = Some '' a ''
   \<and> eventDataString (parseSSEEvent ''data:  a '') = ''a''
   \<and> Some (eventDataString (parseSSEEvent ''data:  a '')) \<noteq> spec_field_value ''data:  a ''"
  by (simp add: spec_field_value_def parseSSEEvent_def parse_part_def trim_def is_ws_def)

text \<open>
  Claim C10. A data line whose value trims to the empty string leaves an empty payload
  empty and appends a line feed to a payload that is not empty. The frame
  \<^verbatim>\<open>data:\ndata: a\n\n\<close> gives the payload \<^verbatim>\<open>a\<close>, the frame \<^verbatim>\<open>data: a\ndata:\n\n\<close> the
  payload \<^verbatim>\<open>a\n\<close>.
\<close>

theorem empty_data_line:
  "(field_name part = Some ''data'' \<and> field_value part = Some [] \<longrightarrow>
      eventDataString (parse_part acc part) =
        (if eventDataString acc = [] then [] else eventDataString acc @ [CHR 0x0A]))
   \<and> frames_of ''data:\<newline>data: a\<newline>\<newline>'' = [''data:\<newline>data: a'']
   \<and> eventDataString (parseSSEEvent ''data:\<newline>data: a'') = ''a''
   \<and> frames_of ''data: a\<newline>data:\<newline>\<newline>'' = [''data: a\<newline>data:'']
   \<and> eventDataString (parseSSEEvent ''data: a\<newline>data:'') = ''a\<newline>''"
proof -
  have 1: "frames_of ''data:\<newline>data: a\<newline>\<newline>'' = [''data:\<newline>data: a'']"
    by (simp add: frames_of.simps)
  have 2: "frames_of ''data: a\<newline>data:\<newline>\<newline>'' = [''data: a\<newline>data:'']"
    by (simp add: frames_of.simps)
  have 3: "eventDataString (parseSSEEvent ''data:\<newline>data: a'') = ''a''"
    by (simp add: parseSSEEvent_def parse_part_def trim_def is_ws_def)
  have 4: "eventDataString (parseSSEEvent ''data: a\<newline>data:'') = ''a\<newline>''"
    by (simp add: parseSSEEvent_def parse_part_def trim_def is_ws_def)
  show ?thesis
    using 1 2 3 4
    by (auto simp: field_name_def field_value_def parse_part_def Let_def)
qed

text \<open>The theorem at the line \<^verbatim>\<open>data:  \<close> and the payload \<^verbatim>\<open>a\<close>.\<close>

theorem empty_data_line_witness:
  "field_name ''data:  '' = Some ''data'' \<and> field_value ''data:  '' = Some []
   \<and> eventDataString (parse_part \<lparr>eventName = ''message'', eventDataString = ''a'', eventId = None, retry = None\<rparr> ''data:  '') = ''a\<newline>''"
  using empty_data_line [of "''data:  ''" "\<lparr>eventName = ''message'', eventDataString = ''a'', eventId = None, retry = None\<rparr>"]
  by (simp add: field_name_def field_value_def trim_def is_ws_def)

section \<open>Frames read from the stream\<close>

lemma indexOf_nn_bound: "indexOf_nn xs = Some b \<Longrightarrow> b + 2 \<le> length xs"
  by (induction xs arbitrary: b rule: indexOf_nn.induct) (auto split: if_splits)

lemma indexOf_None_iff: "indexOf c s = None \<longleftrightarrow> c \<notin> set s"
  by (induction s) auto

lemma js_split_chars_all: "\<forall>p \<in> set (js_split s). set p \<subseteq> set s"
  by (induction s) (auto split: if_splits list.splits)

lemma js_split_chars: "p \<in> set (js_split s) \<Longrightarrow> set p \<subseteq> set s"
  using js_split_chars_all by blast

lemma trim_Nil_iff: "trim s = [] \<longleftrightarrow> (\<forall>c \<in> set s. is_ws c)"
proof
  assume "trim s = []"
  then have all: "\<forall>c \<in> set (dropWhile is_ws s). is_ws c"
    by (simp add: trim_def dropWhile_eq_Nil_conv)
  have "dropWhile is_ws s = []"
  proof (rule ccontr)
    assume ne: "dropWhile is_ws s \<noteq> []"
    then have "\<not> is_ws (hd (dropWhile is_ws s))"
      by (rule hd_dropWhile)
    moreover have "hd (dropWhile is_ws s) \<in> set (dropWhile is_ws s)"
      using ne by simp
    ultimately show False
      using all by blast
  qed
  then show "\<forall>c \<in> set s. is_ws c"
    by (simp add: dropWhile_eq_Nil_conv)
next
  assume "\<forall>c \<in> set s. is_ws c"
  then show "trim s = []"
    by (auto simp: trim_def dropWhile_eq_Nil_conv dest: set_dropWhileD)
qed

lemma parse_part_no_colon: "CHR '':'' \<notin> set part \<Longrightarrow> parse_part acc part = acc"
  by (simp add: parse_part_def indexOf_None_iff [THEN iffD2])

lemma foldl_parse_part_no_colon:
  "\<forall>p \<in> set ps. CHR '':'' \<notin> set p \<Longrightarrow> foldl parse_part acc ps = acc"
  by (induction ps arbitrary: acc) (simp_all add: parse_part_no_colon)

lemma parseSSEEvent_blank:
  assumes "trim f = []"
  shows "parseSSEEvent f =
           \<lparr>eventName = ''message'', eventDataString = [], eventId = None, retry = None\<rparr>"
proof -
  have "\<not> is_ws CHR '':''"
    by (simp add: is_ws_def)
  with assms have "CHR '':'' \<notin> set f"
    by (auto simp: trim_Nil_iff)
  then have "\<forall>p \<in> set (js_split f). CHR '':'' \<notin> set p"
    using js_split_chars by blast
  then show ?thesis
    by (simp add: parseSSEEvent_def foldl_parse_part_no_colon)
qed

lemma parse_part_fields:
  "eventDataString (parse_part acc p) =
     (if field_name p = Some ''data''
      then eventDataString acc @ (if eventDataString acc \<noteq> [] then [CHR 0x0A] else [])
           @ the (field_value p)
      else eventDataString acc)"
  "eventId (parse_part acc p) = (if field_name p = Some ''id'' then field_value p else eventId acc)"
  "retry (parse_part acc p) =
     (case retry_directive p of None \<Rightarrow> retry acc | Some r \<Rightarrow> Some r)"
  by (auto simp: parse_part_def field_name_def field_value_def retry_directive_def Let_def
      split: option.splits)

lemma foldl_no_data:
  "\<forall>p \<in> set ps. field_name p \<noteq> Some ''data'' \<Longrightarrow>
   eventDataString (foldl parse_part acc ps) = eventDataString acc"
  by (induction ps arbitrary: acc) (simp_all add: parse_part_fields)

lemma foldl_eventId:
  "eventId (foldl parse_part acc ps) =
     (case filter (\<lambda>p. field_name p = Some ''id'') ps of
        [] \<Rightarrow> eventId acc
      | q # qs \<Rightarrow> field_value (last (q # qs)))"
  by (induction ps rule: rev_induct) (auto simp: parse_part_fields split: list.splits)

lemma foldl_retry:
  "retry (foldl parse_part acc ps) =
     (case filter (\<lambda>p. retry_directive p \<noteq> None) ps of
        [] \<Rightarrow> retry acc
      | q # qs \<Rightarrow> retry_directive (last (q # qs)))"
  by (induction ps rule: rev_induct) (auto simp: parse_part_fields split: list.splits option.splits)

lemma process_frame_buffer:
  "process_frame opts f s w = Returned \<sigma> \<Longrightarrow> buffer (fst \<sigma>) = buffer s"
  by (auto simp: process_frame_def note_id_and_retry_def Let_def
      split: option.splits outcome.splits if_splits)

lemma process_buffer_no_boundary:
  "indexOf_nn (buffer s) = None \<Longrightarrow> process_buffer opts s w = Returned (s, w)"
  by (subst process_buffer.simps) simp

lemma process_buffer_single:
  assumes "indexOf_nn (f @ ''\<newline>\<newline>'') = Some (length f)" and "buffer s = f @ ''\<newline>\<newline>''"
  shows "process_buffer opts s w =
           (if trim f \<noteq> [] then process_frame opts f (s\<lparr>buffer := []\<rparr>) w
            else Returned (s\<lparr>buffer := []\<rparr>, w))"
proof (cases "trim f \<noteq> []")
  case False
  then show ?thesis
    using assms
    by (subst process_buffer.simps) (simp add: process_buffer_no_boundary)
next
  case True
  show ?thesis
  proof (cases "process_frame opts f (s\<lparr>buffer := []\<rparr>) w")
    case (Threw e \<sigma>)
    then show ?thesis
      using assms True by (subst process_buffer.simps) simp
  next
    case (Returned \<sigma>)
    then have "buffer (fst \<sigma>) = []"
      by (auto dest: process_frame_buffer)
    then have "process_buffer opts (fst \<sigma>) (snd \<sigma>) = Returned \<sigma>"
      by (simp add: process_buffer_no_boundary)
    then show ?thesis
      using assms True Returned by (subst process_buffer.simps) simp
  qed
qed


lemma outcome_with_state:
  "(case r of Threw e w' \<Rightarrow> Threw e (s, w') | Returned w' \<Rightarrow> Returned (s, w')) =
     map_outcome (Pair s) r"
  by (cases r) simp_all

lemma then_read_single:
  assumes "indexOf_nn (f @ ''\<newline>\<newline>'') = Some (length f)" and "buffer s @ chunk = f @ ''\<newline>\<newline>''"
  shows "then_read opts (Chunk chunk) s w =
           (if trim f \<noteq> [] then process_frame opts f (s\<lparr>buffer := []\<rparr>) w
            else Returned (s\<lparr>buffer := []\<rparr>, w))"
  using process_buffer_single [OF assms(1), of "s\<lparr>buffer := buffer s @ chunk\<rparr>" opts w] assms(2)
  by (simp add: then_read_def)

text \<open>
  Claim C6. On a connection with nothing buffered, the chunk
  \<^verbatim>\<open>event: notice\ndata: hello\nid: 1\n\n\<close> makes exactly one call of \<open>dispatchEvent\<close>, for
  the type \<^verbatim>\<open>notice\<close>, the payload \<^verbatim>\<open>hello\<close> and the id \<^verbatim>\<open>1\<close>; the chunk
  \<^verbatim>\<open>data: a\ndata: b\n\n\<close> makes exactly one, for the type \<^verbatim>\<open>message\<close> and the payload
  \<^verbatim>\<open>a\nb\<close>.
\<close>

theorem notice_then_message_frames:
  assumes "buffer s = []"
  shows "then_read opts (Chunk ''event: notice\<newline>data: hello\<newline>id: 1\<newline>\<newline>'') s w =
           map_outcome (Pair (s\<lparr>lastEventId := Some ''1''\<rparr>))
             (dispatchEvent opts (s\<lparr>lastEventId := Some ''1''\<rparr>)
                ''notice'' (Some ''hello'') (Some ''1'') w)
       \<and> then_read opts (Chunk ''data: a\<newline>data: b\<newline>\<newline>'') s w =
           map_outcome (Pair s) (dispatchEvent opts s ''message'' (Some ''a\<newline>b'') None w)"
proof -
  have p1: "parseSSEEvent ''event: notice\<newline>data: hello\<newline>id: 1'' =
              \<lparr>eventName = ''notice'', eventDataString = ''hello'', eventId = Some ''1'', retry = None\<rparr>"
    by (simp add: parseSSEEvent_def parse_part_def trim_def is_ws_def)
  have p2: "parseSSEEvent ''data: a\<newline>data: b'' =
              \<lparr>eventName = ''message'', eventDataString = ''a\<newline>b'', eventId = None, retry = None\<rparr>"
    by (simp add: parseSSEEvent_def parse_part_def trim_def is_ws_def)
  have t1: "trim ''event: notice\<newline>data: hello\<newline>id: 1'' \<noteq> []"
    by (simp add: trim_def is_ws_def)
  have t2: "trim ''data: a\<newline>data: b'' \<noteq> []"
    by (simp add: trim_def is_ws_def)
  have s0: "s\<lparr>buffer := []\<rparr> = s"
    using assms by simp
  have r1: "then_read opts (Chunk ''event: notice\<newline>data: hello\<newline>id: 1\<newline>\<newline>'') s w =
              process_frame opts ''event: notice\<newline>data: hello\<newline>id: 1'' s w"
    using then_read_single [of "''event: notice\<newline>data: hello\<newline>id: 1''" s
        "''event: notice\<newline>data: hello\<newline>id: 1\<newline>\<newline>''" opts w] assms t1 s0
    by simp
  have r2: "then_read opts (Chunk ''data: a\<newline>data: b\<newline>\<newline>'') s w =
              process_frame opts ''data: a\<newline>data: b'' s w"
    using then_read_single [of "''data: a\<newline>data: b''" s "''data: a\<newline>data: b\<newline>\<newline>''" opts w]
      assms t2 s0
    by simp
  show ?thesis
    unfolding r1 r2
    by (simp add: process_frame_def note_id_and_retry_def p1 p2 outcome_with_state Let_def)
qed

text \<open>
  The two chunks one after the other on the open example connection: the recorder has
  logged one event after the first and two after the second.
\<close>

theorem notice_then_message_frames_witness:
  "buffer example_open = []
   \<and> then_read example_options (Chunk ''event: notice\<newline>data: hello\<newline>id: 1\<newline>\<newline>'') example_open [] =
       Returned (example_open\<lparr>lastEventId := Some ''1''\<rparr>,
         [\<lparr>ev_type = ''notice'', ev_data = Some ''hello'', ev_lastEventId = Some ''1'',
           ev_origin = ''https://example.org''\<rparr>])
   \<and> buffer (example_open\<lparr>lastEventId := Some ''1''\<rparr>) = []
   \<and> then_read example_options (Chunk ''data: a\<newline>data: b\<newline>\<newline>'')
         (example_open\<lparr>lastEventId := Some ''1''\<rparr>)
         [\<lparr>ev_type = ''notice'', ev_data = Some ''hello'', ev_lastEventId = Some ''1'',
           ev_origin = ''https://example.org''\<rparr>] =
       Returned (example_open\<lparr>lastEventId := Some ''1''\<rparr>,
         [\<lparr>ev_type = ''notice'', ev_data = Some ''hello'', ev_lastEventId = Some ''1'',
           ev_origin = ''https://example.org''\<rparr>,
          \<lparr>ev_type = ''message'', ev_data = Some ''a\<newline>b'', ev_lastEventId = None,
           ev_origin = ''https://example.org''\<rparr>])"
proof -
  have b: "buffer example_open = []"
    by code_simp
  then have b': "buffer (example_open\<lparr>lastEventId := Some ''1''\<rparr>) = []"
    by simp
  have d1: "dispatchEvent example_options (example_open\<lparr>lastEventId := Some ''1''\<rparr>)
              ''notice'' (Some ''hello'') (Some ''1'') [] =
            Returned [\<lparr>ev_type = ''notice'', ev_data = Some ''hello'', ev_lastEventId = Some ''1'',
              ev_origin = ''https://example.org''\<rparr>]"
    by code_simp
  have d2: "dispatchEvent example_options (example_open\<lparr>lastEventId := Some ''1''\<rparr>)
              ''message'' (Some ''a\<newline>b'') None
              [\<lparr>ev_type = ''notice'', ev_data = Some ''hello'', ev_lastEventId = Some ''1'',
                ev_origin = ''https://example.org''\<rparr>] =
            Returned [\<lparr>ev_type = ''notice'', ev_data = Some ''hello'', ev_lastEventId = Some ''1'',
                ev_origin = ''https://example.org''\<rparr>,
              \<lparr>ev_type = ''message'', ev_data = Some ''a\<newline>b'', ev_lastEventId = None,
                ev_origin = ''https://example.org''\<rparr>]"
    by code_simp
  show ?thesis
    using notice_then_message_frames [OF b, of example_options "[]"]
      notice_then_message_frames [OF b', of example_options
        "[\<lparr>ev_type = ''notice'', ev_data = Some ''hello'', ev_lastEventId = Some ''1'',
           ev_origin = ''https://example.org''\<rparr>]"]
      b b'
    by (simp add: d1 d2)
qed

section \<open>Dispatch to the listeners\<close>

lemma call_all_append:
  "call_all (xs @ ys) eventObject w =
     (case call_all xs eventObject w of
        Threw e w' \<Rightarrow> Threw e w'
      | Returned w' \<Rightarrow> call_all ys eventObject w')"
  by (induction xs arbitrary: w) (simp_all split: outcome.splits)

lemma note_id_and_retry_registry:
  "callbacks_of (note_id_and_retry ev s) event = callbacks_of s event"
  "native_handlers (note_id_and_retry ev s) = native_handlers s"
  by (auto simp: note_id_and_retry_def callbacks_of_def native_handlers_def fun_eq_iff Let_def
      split: option.splits)

text \<open>
  Claim C9, as the code has it. The event delivered for a frame with a payload carries,
  as \<^verbatim>\<open>lastEventId\<close>, the id of that frame: the value of its last id line, and \<open>null\<close>
  when it has none. The last event id of the connection is not read. Every listener of
  the frame's type, then the native handler, gets this one event object.
\<close>

theorem delivered_id_is_frame_id:
  assumes "url_origin opts = Some orig"
    and "eventDataString (parseSSEEvent f) \<noteq> []"
    and "callbacks_of s (eventName (parseSSEEvent f)) = Some cbs"
  shows "process_frame opts f s w =
           map_outcome (Pair (note_id_and_retry (parseSSEEvent f) s))
             (case call_all cbs
                     \<lparr>ev_type = eventName (parseSSEEvent f),
                      ev_data = Some (eventDataString (parseSSEEvent f)),
                      ev_lastEventId = eventId (parseSSEEvent f), ev_origin = orig\<rparr> w of
                Threw e w' \<Rightarrow> Threw e w'
              | Returned w' \<Rightarrow>
                  native_handlers s (eventName (parseSSEEvent f))
                    \<lparr>ev_type = eventName (parseSSEEvent f),
                     ev_data = Some (eventDataString (parseSSEEvent f)),
                     ev_lastEventId = eventId (parseSSEEvent f), ev_origin = orig\<rparr> w')
       \<and> eventId (parseSSEEvent f) =
           (case filter (\<lambda>p. field_name p = Some ''id'') (js_split f) of
              [] \<Rightarrow> None | q # qs \<Rightarrow> field_value (last (q # qs)))"
proof -
  have ids: "eventId (parseSSEEvent f) =
           (case filter (\<lambda>p. field_name p = Some ''id'') (js_split f) of
              [] \<Rightarrow> None | q # qs \<Rightarrow> field_value (last (q # qs)))"
    by (simp add: parseSSEEvent_def foldl_eventId split: list.splits)
  have "process_frame opts f s w =
           map_outcome (Pair (note_id_and_retry (parseSSEEvent f) s))
             (case call_all cbs
                     \<lparr>ev_type = eventName (parseSSEEvent f),
                      ev_data = Some (eventDataString (parseSSEEvent f)),
                      ev_lastEventId = eventId (parseSSEEvent f), ev_origin = orig\<rparr> w of
                Threw e w' \<Rightarrow> Threw e w'
              | Returned w' \<Rightarrow>
                  native_handlers s (eventName (parseSSEEvent f))
                    \<lparr>ev_type = eventName (parseSSEEvent f),
                     ev_data = Some (eventDataString (parseSSEEvent f)),
                     ev_lastEventId = eventId (parseSSEEvent f), ev_origin = orig\<rparr> w')"
    using assms
    by (simp add: process_frame_def dispatchEvent_def note_id_and_retry_registry
        outcome_with_state Let_def cong: outcome.case_cong)
  with ids show ?thesis
    by blast
qed

text \<open>
  The theorem at the frame \<^verbatim>\<open>data: y\<close> on a connection whose last event id is \<^verbatim>\<open>7\<close>: the
  recorder logs an event without id.
\<close>

theorem delivered_id_is_frame_id_witness:
  "url_origin example_options = Some ''https://example.org''
   \<and> eventDataString (parseSSEEvent ''data: y'') \<noteq> []
   \<and> callbacks_of (example_open\<lparr>lastEventId := Some ''7''\<rparr>) (eventName (parseSSEEvent ''data: y''))
       = Some [recorder]
   \<and> process_frame example_options ''data: y'' (example_open\<lparr>lastEventId := Some ''7''\<rparr>) [] =
       Returned (example_open\<lparr>lastEventId := Some ''7''\<rparr>,
         [\<lparr>ev_type = ''message'', ev_data = Some ''y'', ev_lastEventId = None,
           ev_origin = ''https://example.org''\<rparr>])"
proof -
  have o: "url_origin example_options = Some ''https://example.org''"
    by (simp add: example_options_def default_options_def)
  have p: "parseSSEEvent ''data: y'' =
             \<lparr>eventName = ''message'', eventDataString = ''y'', eventId = None, retry = None\<rparr>"
    by code_simp
  have d: "eventDataString (parseSSEEvent ''data: y'') \<noteq> []"
    by (simp add: p)
  have l: "listeners example_open ''message'' = Some [recorder]"
    by (simp add: example_open_def run_def step_def fetchSSE_def connect_def addEventListener_def
        settled_def object_prototype_names_def on_response_def then_response_def ok_def
        dispatchEvent_def callbacks_of_def native_handlers_def call_handler_def Let_def
        example_options_def default_options_def)
  have h: "onmessage example_open = None"
    by code_simp
  have c: "callbacks_of (example_open\<lparr>lastEventId := Some ''7''\<rparr>) (eventName (parseSSEEvent ''data: y''))
       = Some [recorder]"
    by (simp add: p callbacks_of_def l)
  show ?thesis
    using delivered_id_is_frame_id [OF o d c, of "[]"] o d c
    by (simp add: p note_id_and_retry_def recorder_def native_handlers_def call_handler_def h)
qed

text \<open>
  Claim C9 as the specification words it fails: after a frame with the id \<^verbatim>\<open>7\<close>, the event
  of a frame without id is delivered with \<^verbatim>\<open>lastEventId\<close> \<open>null\<close>, while the last event id of
  the connection is \<^verbatim>\<open>7\<close>.
\<close>

theorem delivered_id_counterexample:
  "lastEventId (fst (run example_options (example_open, [])
       [Read (Chunk ''id: 7\<newline>data: x\<newline>\<newline>''), Read (Chunk ''data: y\<newline>\<newline>'')])) = Some ''7''
   \<and> snd (run example_options (example_open, [])
       [Read (Chunk ''id: 7\<newline>data: x\<newline>\<newline>''), Read (Chunk ''data: y\<newline>\<newline>'')]) =
     [\<lparr>ev_type = ''message'', ev_data = Some ''x'', ev_lastEventId = Some ''7'',
       ev_origin = ''https://example.org''\<rparr>,
      \<lparr>ev_type = ''message'', ev_data = Some ''y'', ev_lastEventId = None,
       ev_origin = ''https://example.org''\<rparr>]
   \<and> ev_lastEventId (last (snd (run example_options (example_open, [])
       [Read (Chunk ''id: 7\<newline>data: x\<newline>\<newline>''), Read (Chunk ''data: y\<newline>\<newline>'')])))
     \<noteq> lastEventId (fst (run example_options (example_open, [])
       [Read (Chunk ''id: 7\<newline>data: x\<newline>\<newline>''), Read (Chunk ''data: y\<newline>\<newline>'')]))"
  by code_simp

text \<open>
  Claim C2, as the code has it. The listeners are called in the order of registration
  until one throws: its exception leaves \<open>dispatchEvent\<close> with the world as the throwing
  listener left it, whatever listeners are registered after it; none of them, and no
  native handler, is called.
\<close>

theorem throwing_listener_ends_dispatch:
  assumes "url_origin opts = Some orig"
    and "listeners s event = Some (before @ cb # after)"
    and "call_all before
           \<lparr>ev_type = event, ev_data = d, ev_lastEventId = i, ev_origin = orig\<rparr> w = Returned w1"
    and "cb \<lparr>ev_type = event, ev_data = d, ev_lastEventId = i, ev_origin = orig\<rparr> w1 = Threw e w2"
  shows "dispatchEvent opts s event d i w = Threw e w2"
  using assms by (simp add: dispatchEvent_def callbacks_of_def call_all_append)

text \<open>
  The theorem at three listeners, the second of which throws: the first has logged the
  event, the third has not.
\<close>

theorem throwing_listener_ends_dispatch_witness:
  "url_origin example_options = Some ''https://example.org''
   \<and> listeners (example_open\<lparr>listeners := [''message'' \<mapsto> [recorder, thrower, recorder]]\<rparr>) ''message''
       = Some ([recorder] @ thrower # [recorder])
   \<and> call_all [recorder]
        \<lparr>ev_type = ''message'', ev_data = Some ''x'', ev_lastEventId = None,
          ev_origin = ''https://example.org''\<rparr> [] =
       Returned [\<lparr>ev_type = ''message'', ev_data = Some ''x'', ev_lastEventId = None,
          ev_origin = ''https://example.org''\<rparr>]
   \<and> thrower
        \<lparr>ev_type = ''message'', ev_data = Some ''x'', ev_lastEventId = None,
          ev_origin = ''https://example.org''\<rparr>
        [\<lparr>ev_type = ''message'', ev_data = Some ''x'', ev_lastEventId = None,
          ev_origin = ''https://example.org''\<rparr>] =
       Threw \<lparr>message = ''listener failed'', status = None\<rparr>
        [\<lparr>ev_type = ''message'', ev_data = Some ''x'', ev_lastEventId = None,
          ev_origin = ''https://example.org''\<rparr>]
   \<and> dispatchEvent example_options
        (example_open\<lparr>listeners := [''message'' \<mapsto> [recorder, thrower, recorder]]\<rparr>)
        ''message'' (Some ''x'') None [] =
       Threw \<lparr>message = ''listener failed'', status = None\<rparr>
        [\<lparr>ev_type = ''message'', ev_data = Some ''x'', ev_lastEventId = None,
          ev_origin = ''https://example.org''\<rparr>]"
proof -
  have o: "url_origin example_options = Some ''https://example.org''"
    by (simp add: example_options_def default_options_def)
  have l: "listeners (example_open\<lparr>listeners := [''message'' \<mapsto> [recorder, thrower, recorder]]\<rparr>) ''message''
       = Some ([recorder] @ thrower # [recorder])"
    by simp
  have b: "call_all [recorder]
        \<lparr>ev_type = ''message'', ev_data = Some ''x'', ev_lastEventId = None,
          ev_origin = ''https://example.org''\<rparr> [] =
       Returned [\<lparr>ev_type = ''message'', ev_data = Some ''x'', ev_lastEventId = None,
          ev_origin = ''https://example.org''\<rparr>]"
    by (simp add: recorder_def)
  have t: "thrower
        \<lparr>ev_type = ''message'', ev_data = Some ''x'', ev_lastEventId = None,
          ev_origin = ''https://example.org''\<rparr>
        [\<lparr>ev_type = ''message'', ev_data = Some ''x'', ev_lastEventId = None,
          ev_origin = ''https://example.org''\<rparr>] =
       Threw \<lparr>message = ''listener failed'', status = None\<rparr>
        [\<lparr>ev_type = ''message'', ev_data = Some ''x'', ev_lastEventId = None,
          ev_origin = ''https://example.org''\<rparr>]"
    by (simp add: thrower_def)
  show ?thesis
    using throwing_listener_ends_dispatch [OF o l b t] o l b t
    by simp
qed

text \<open>
  Claim C2 as the specification words it fails: with a throwing listener registered
  before the recorder, the dispatch throws and the recorder has logged nothing.
\<close>

theorem listener_isolation_counterexample:
  "listeners (fst (run example_options (fetchSSE example_options, [])
       [CallAddEventListener ''message'' thrower, CallAddEventListener ''message'' recorder])) ''message''
     = Some [thrower, recorder]
   \<and> dispatchEvent example_options
       (fst (run example_options (fetchSSE example_options, [])
          [CallAddEventListener ''message'' thrower, CallAddEventListener ''message'' recorder]))
       ''message'' (Some ''x'') None [] =
     Threw \<lparr>message = ''listener failed'', status = None\<rparr> []"
  apply (rule conjI)
   apply (simp add: run_def step_def fetchSSE_def connect_def addEventListener_def
        settled_def object_prototype_names_def)
  apply code_simp
  done

section \<open>Runs of the connection\<close>

lemma process_frame_state:
  "fst (settled (process_frame opts f s w)) = note_id_and_retry (parseSSEEvent f) s"
  by (simp add: process_frame_def settled_def Let_def split: outcome.splits)

lemma note_id_and_retry_buffer: "buffer (note_id_and_retry ev s) = buffer s"
  by (simp add: note_id_and_retry_def Let_def split: option.splits)

lemma frames_of_boundary:
  "indexOf_nn buf = Some b \<Longrightarrow> frames_of buf = take b buf # frames_of (drop (b + 2) buf)"
  by (subst frames_of.simps) simp

lemma process_buffer_invariant:
  assumes buf: "\<And>s b. Q s \<Longrightarrow> Q (s\<lparr>buffer := b\<rparr>)"
    and frame: "\<And>s f. Q s \<Longrightarrow> f \<in> set F \<Longrightarrow> Q (note_id_and_retry (parseSSEEvent f) s)"
  shows "set (frames_of (buffer s)) \<subseteq> set F \<Longrightarrow> Q s \<Longrightarrow>
         Q (fst (settled (process_buffer opts s w)))"
proof (induction opts s w rule: process_buffer.induct)
  case (1 opts s w)
  show ?case
  proof (cases "indexOf_nn (buffer s)")
    case None
    then show ?thesis
      using "1.prems" by (simp add: process_buffer_no_boundary settled_def)
  next
    case (Some b)
    let ?f = "take b (buffer s)"
    let ?s1 = "s\<lparr>buffer := drop (b + 2) (buffer s)\<rparr>"
    have fr: "frames_of (buffer s) = ?f # frames_of (drop (b + 2) (buffer s))"
      using Some by (rule frames_of_boundary)
    have Q1: "Q ?s1"
      using "1.prems"(2) by (rule buf)
    have F1: "set (frames_of (buffer ?s1)) \<subseteq> set F"
      using "1.prems"(1) fr by simp
    have fF: "?f \<in> set F"
      using "1.prems"(1) fr by simp
    show ?thesis
    proof (cases "trim ?f \<noteq> []")
      case False
      have "process_buffer opts s w = process_buffer opts ?s1 w"
        using Some False by (subst process_buffer.simps) simp
      then show ?thesis
        using "1.IH"(2) [OF Some False F1 Q1] by simp
    next
      case True
      have Q2: "Q (note_id_and_retry (parseSSEEvent ?f) ?s1)"
        using Q1 fF by (rule frame)
      show ?thesis
      proof (cases "process_frame opts ?f ?s1 w")
        case (Threw e \<sigma>)
        then have "process_buffer opts s w = Threw e \<sigma>"
          using Some True by (subst process_buffer.simps) simp
        moreover have "fst \<sigma> = note_id_and_retry (parseSSEEvent ?f) ?s1"
          using process_frame_state [of opts ?f ?s1 w] Threw by (simp add: settled_def)
        ultimately show ?thesis
          using Q2 by (simp add: settled_def)
      next
        case (Returned \<sigma>)
        then have eq: "process_buffer opts s w = process_buffer opts (fst \<sigma>) (snd \<sigma>)"
          using Some True by (subst process_buffer.simps) simp
        have st: "fst \<sigma> = note_id_and_retry (parseSSEEvent ?f) ?s1"
          using process_frame_state [of opts ?f ?s1 w] Returned by (simp add: settled_def)
        have "set (frames_of (buffer (fst \<sigma>))) \<subseteq> set F"
          using F1 by (simp add: st note_id_and_retry_buffer)
        moreover have "Q (fst \<sigma>)"
          using Q2 st by simp
        ultimately show ?thesis
          using "1.IH"(1) [OF Some True Returned] eq by simp
      qed
    qed
  qed
qed


lemma catch_handler_invariant:
  assumes "Q s" and "Q s \<Longrightarrow> Q (scheduleReconnect opts s)"
  shows "Q (fst (settled (catch_handler opts e s w)))"
  using assms by (simp add: catch_handler_def settled_def split: outcome.splits)

lemma then_response_invariant:
  assumes "Q s" and "\<And>s. Q s \<Longrightarrow> Q (s\<lparr>readyState := 1, retryCount := 0\<rparr>)"
    and "\<And>s. Q s \<Longrightarrow> Q (s\<lparr>reader := Some False, buffer := []\<rparr>)"
  shows "Q (fst (settled (then_response opts resp s w)))"
  using assms by (simp add: then_response_def settled_def Let_def split: outcome.splits)

lemma caught_invariant:
  assumes "Q (fst (settled r))" and "\<And>s. Q s \<Longrightarrow> Q (scheduleReconnect opts s)"
  shows "Q (fst (settled (case r of
                            Threw e \<sigma> \<Rightarrow> catch_handler opts e (fst \<sigma>) (snd \<sigma>)
                          | Returned \<sigma> \<Rightarrow> Returned \<sigma>)))"
proof (cases r)
  case (Returned \<sigma>)
  with assms(1) show ?thesis by (simp add: settled_def)
next
  case (Threw e \<sigma>)
  with assms(1) have "Q (fst \<sigma>)" by (simp add: settled_def)
  then have "Q (fst (settled (catch_handler opts e (fst \<sigma>) (snd \<sigma>))))"
    using assms(2) by (rule catch_handler_invariant)
  with Threw show ?thesis by simp
qed

lemma step_invariant:
  assumes Q: "Q (fst \<sigma>)"
    and buf: "\<And>s b. Q s \<Longrightarrow> Q (s\<lparr>buffer := b\<rparr>)"
    and frame: "\<And>s text f. i = Read (Chunk text) \<Longrightarrow> f \<in> set (frames_of (buffer (fst \<sigma>) @ text))
                  \<Longrightarrow> Q s \<Longrightarrow> Q (note_id_and_retry (parseSSEEvent f) s)"
    and sched: "\<And>s. Q s \<Longrightarrow> Q (scheduleReconnect opts s)"
    and opened: "\<And>s. Q s \<Longrightarrow> Q (s\<lparr>readyState := 1, retryCount := 0\<rparr>)"
    and reading: "\<And>s. Q s \<Longrightarrow> Q (s\<lparr>reader := Some False, buffer := []\<rparr>)"
    and timeout: "\<And>s. Q s \<Longrightarrow> Q (on_timeout opts s)"
    and closing: "\<And>s. i = CallClose \<Longrightarrow> Q s \<Longrightarrow> Q (close s)"
    and setting: "\<And>s v. i = CallSetLastEventId v \<Longrightarrow> Q s \<Longrightarrow> Q (setLastEventId v s)"
    and adding: "\<And>s l. Q s \<Longrightarrow> Q (s\<lparr>listeners := l\<rparr>)"
  shows "Q (fst (step opts \<sigma> i))"
proof (cases i)
  case (Response resp)
  have "Q (fst (settled (then_response opts resp (fst \<sigma>) (snd \<sigma>))))"
    using Q opened reading by (rule then_response_invariant)
  then have "Q (fst (settled (on_response opts resp (fst \<sigma>) (snd \<sigma>))))"
    unfolding on_response_def using sched by (rule caught_invariant)
  with Response show ?thesis by (simp add: step_def)
next
  case (FetchRejected e)
  with catch_handler_invariant [of Q "fst \<sigma>" opts e "snd \<sigma>"] Q sched show ?thesis
    by (simp add: step_def)
next
  case (Read r)
  show ?thesis
  proof (cases r)
    case Done
    have "Q (fst (settled (then_read opts Done (fst \<sigma>) (snd \<sigma>))))"
      using Q sched by (simp add: then_read_def settled_def)
    then have "Q (fst (settled (on_read opts Done (fst \<sigma>) (snd \<sigma>))))"
      unfolding on_read_def using sched by (rule caught_invariant)
    with Read Done show ?thesis by (simp add: step_def)
  next
    case (Chunk ch)
    let ?s = "(fst \<sigma>)\<lparr>buffer := buffer (fst \<sigma>) @ ch\<rparr>"
    have "Q (fst (settled (process_buffer opts ?s (snd \<sigma>))))"
    proof (rule process_buffer_invariant [where F = "frames_of (buffer (fst \<sigma>) @ ch)"])
      show "Q ?s" using Q by (rule buf)
      show "set (frames_of (buffer ?s)) \<subseteq> set (frames_of (buffer (fst \<sigma>) @ ch))"
        by simp
      show "\<And>s b. Q s \<Longrightarrow> Q (s\<lparr>buffer := b\<rparr>)" by (rule buf)
      show "\<And>s f. Q s \<Longrightarrow> f \<in> set (frames_of (buffer (fst \<sigma>) @ ch)) \<Longrightarrow>
              Q (note_id_and_retry (parseSSEEvent f) s)"
        using frame Read Chunk by blast
    qed
    then have "Q (fst (settled (then_read opts (Chunk ch) (fst \<sigma>) (snd \<sigma>))))"
      by (simp add: then_read_def)
    then have "Q (fst (settled (on_read opts (Chunk ch) (fst \<sigma>) (snd \<sigma>))))"
      unfolding on_read_def using sched by (rule caught_invariant)
    with Read Chunk show ?thesis by (simp add: step_def)
  qed
next
  case (ReadRejected e)
  with catch_handler_invariant [of Q "fst \<sigma>" opts e "snd \<sigma>"] Q sched show ?thesis
    by (simp add: step_def)
next
  case Timeout
  with Q timeout show ?thesis by (simp add: step_def)
next
  case CallClose
  with Q closing show ?thesis by (simp add: step_def)
next
  case (CallSetLastEventId v)
  with Q setting show ?thesis by (simp add: step_def)
next
  case (CallAddEventListener event cb)
  with Q adding show ?thesis
    by (simp add: step_def addEventListener_def settled_def split: option.splits)
qed

lemma run_invariant:
  assumes "\<And>\<sigma> i. Q (fst \<sigma>) \<Longrightarrow> \<not> P (fst \<sigma>) i \<Longrightarrow> Q (fst (step opts \<sigma> i))"
  shows "Q (fst \<sigma>) \<Longrightarrow> undisturbed P opts \<sigma> inputs \<Longrightarrow> Q (fst (run opts \<sigma> inputs))"
proof (induction inputs arbitrary: \<sigma>)
  case Nil
  then show ?case by (simp add: run_def)
next
  case (Cons i inputs)
  from Cons.prems have "Q (fst (step opts \<sigma> i))"
    using assms by simp
  moreover from Cons.prems have "undisturbed P opts (step opts \<sigma> i) inputs"
    by simp
  ultimately have "Q (fst (run opts (step opts \<sigma> i) inputs))"
    by (rule Cons.IH)
  then show ?case by (simp add: run_def)
qed

lemma undisturbed_static:
  "undisturbed (\<lambda>s i. R i) opts \<sigma> inputs \<longleftrightarrow> (\<forall>i \<in> set inputs. \<not> R i)"
  by (induction inputs arbitrary: \<sigma>) auto

lemma note_id_and_retry_fields:
  "isClosed (note_id_and_retry ev s) = isClosed s"
  "readyState (note_id_and_retry ev s) = readyState s"
  "retryTimeout (note_id_and_retry ev s) = retryTimeout s"
  "fetched (note_id_and_retry ev s) = fetched s"
  "lastEventId (note_id_and_retry ev s) =
     (case eventId ev of None \<Rightarrow> lastEventId s | Some i \<Rightarrow> Some i)"
  "currentRetryDelay (note_id_and_retry ev s) =
     (case retry ev of None \<Rightarrow> currentRetryDelay s | Some r \<Rightarrow> r)"
  by (simp_all add: note_id_and_retry_def Let_def split: option.splits)

lemma connect_fields:
  "isClosed (connect opts s) = isClosed s"
  "readyState (connect opts s) = 0"
  "retryTimeout (connect opts s) = retryTimeout s"
  "lastEventId (connect opts s) = lastEventId s"
  "currentRetryDelay (connect opts s) = currentRetryDelay s"
  "fetched (connect opts s) =
     fetched s @ [buildFetchOptions opts (s\<lparr>readyState := 0, abortController := Some False\<rparr>)]"
  by (simp_all add: connect_def Let_def)

text \<open>
  Claim C8. With a \<^verbatim>\<open>customRetryLogic\<close> the decision is its return value for the object
  built by \<open>scheduleReconnect\<close> and the retry count: neither \<open>maxRetries\<close> nor a status is
  looked at. When it always returns true, no run without a call of \<^verbatim>\<open>close\<close> closes a
  connection that is not closed.
\<close>

theorem custom_retry_logic_is_authoritative:
  fixes s :: "'w sse" and \<sigma> :: "'w sse \<times> 'w"
  assumes "customRetryLogic opts = Some f"
  shows "shouldRetry opts s error = f error (retryCount s)
       \<and> (\<not> isClosed s \<longrightarrow>
            scheduleReconnect opts s =
              (if f \<lparr>err_retryCount = retryCount s, lastError = ''Connection lost'',
                      err_status = None\<rparr> (retryCount s)
               then s\<lparr>retryTimeout := Some (currentRetryDelay s), retryCount := Suc (retryCount s)\<rparr>
               else close (s\<lparr>retryTimeout := None\<rparr>)))
       \<and> ((\<forall>e n. f e n) \<and> \<not> isClosed (fst \<sigma>) \<and> readyState (fst \<sigma>) \<noteq> 2
              \<and> CallClose \<notin> set inputs \<longrightarrow>
            \<not> isClosed (fst (run opts \<sigma> inputs)) \<and> readyState (fst (run opts \<sigma> inputs)) \<noteq> 2)"
proof -
  have policy: "shouldRetry opts s error = f error (retryCount s)" for s :: "'w sse" and error
    using assms by (simp add: shouldRetry_def)
  have sched: "\<not> isClosed s \<longrightarrow>
            scheduleReconnect opts s =
              (if f \<lparr>err_retryCount = retryCount s, lastError = ''Connection lost'',
                      err_status = None\<rparr> (retryCount s)
               then s\<lparr>retryTimeout := Some (currentRetryDelay s), retryCount := Suc (retryCount s)\<rparr>
               else close (s\<lparr>retryTimeout := None\<rparr>))"
    by (simp add: scheduleReconnect_def policy Let_def)
  have run: "\<not> isClosed (fst (run opts \<sigma> inputs)) \<and> readyState (fst (run opts \<sigma> inputs)) \<noteq> 2"
    if always: "\<forall>e n. f e n" and start: "\<not> isClosed (fst \<sigma>) \<and> readyState (fst \<sigma>) \<noteq> 2"
      and calls: "CallClose \<notin> set inputs"
  proof -
    let ?Q = "\<lambda>s :: 'w sse. \<not> isClosed s \<and> readyState s \<noteq> 2"
    have step: "?Q (fst (step opts \<tau> i))" if "?Q (fst \<tau>)" and "\<not> i = CallClose" for \<tau> i
      using that(1)
    proof (rule step_invariant)
      show "?Q (scheduleReconnect opts s)" if "?Q s" for s
        using that always by (simp add: scheduleReconnect_def policy Let_def)
      show "?Q (on_timeout opts s)" if "?Q s" for s
        using that by (simp add: on_timeout_def connect_fields Let_def split: option.splits)
      show "?Q (close s)" if "i = CallClose" for s
        using that \<open>\<not> i = CallClose\<close> by simp
    qed (simp_all add: note_id_and_retry_fields setLastEventId_def)
    let ?P = "\<lambda>(s :: 'w sse) (i :: 'w input). i = CallClose"
    have quiet: "undisturbed ?P opts \<sigma> inputs"
      using calls by (auto simp: undisturbed_static)
    show ?thesis
    proof (rule run_invariant [where Q = ?Q and P = ?P])
      show "?Q (fst \<tau>) \<Longrightarrow> \<not> ?P (fst \<tau>) i \<Longrightarrow> ?Q (fst (step opts \<tau> i))" for \<tau> i
        by (rule step)
      show "?Q (fst \<sigma>)" by (rule start)
      show "undisturbed ?P opts \<sigma> inputs" by (rule quiet)
    qed
  qed
  from policy sched run show ?thesis
    by blast
qed


text \<open>
  The theorem with \<open>maxRetries = 0\<close> and a function that always returns true: the stream
  ends, the timer fires, the server answers 404, and the connection is not closed.
\<close>

theorem custom_retry_logic_is_authoritative_witness:
  "customRetryLogic (example_options\<lparr>maxRetries := 0, customRetryLogic := Some (\<lambda>e n. True)\<rparr>)
     = Some (\<lambda>e n. True)
   \<and> \<not> isClosed example_open \<and> readyState example_open \<noteq> 2
   \<and> CallClose \<notin> set [Read Done, Timeout, Response \<lparr>resp_status = 404, statusText = ''Not Found'', resp_body = True\<rparr>]
   \<and> \<not> isClosed (fst (run (example_options\<lparr>maxRetries := 0, customRetryLogic := Some (\<lambda>e n. True)\<rparr>)
         (example_open, [])
         [Read Done, Timeout, Response \<lparr>resp_status = 404, statusText = ''Not Found'', resp_body = True\<rparr>]))
   \<and> readyState (fst (run (example_options\<lparr>maxRetries := 0, customRetryLogic := Some (\<lambda>e n. True)\<rparr>)
         (example_open, [])
         [Read Done, Timeout, Response \<lparr>resp_status = 404, statusText = ''Not Found'', resp_body = True\<rparr>])) \<noteq> 2"
proof -
  have c: "customRetryLogic (example_options\<lparr>maxRetries := 0, customRetryLogic := Some (\<lambda>e n. True)\<rparr>)
     = Some (\<lambda>e n. True)"
    by simp
  have o: "\<not> isClosed example_open \<and> readyState example_open \<noteq> 2"
    by code_simp
  have i: "CallClose \<notin> set [Read Done, Timeout, Response \<lparr>resp_status = 404, statusText = ''Not Found'', resp_body = True\<rparr>]"
    by simp
  show ?thesis
    using custom_retry_logic_is_authoritative [OF c,
        where s = example_open and \<sigma> = "(example_open, [])"
          and error = "\<lparr>err_retryCount = 0, lastError = ''Connection lost'', err_status = None\<rparr>"
          and inputs = "[Read Done, Timeout, Response \<lparr>resp_status = 404, statusText = ''Not Found'', resp_body = True\<rparr>]"]
      o i
    by simp
qed

text \<open>
  Claim C1 at a response with status 404 under the default options. The default policy
  refuses an error with status 404, but \<open>scheduleReconnect\<close> never hands it the status:
  after the response a reconnection is scheduled after the 3000 ms of \<open>retryDelay\<close>, the
  connection is not closed, and when the timer fires a second request is made.
\<close>

theorem status_404_is_retried:
  "shouldRetry example_options (fetchSSE example_options :: unit sse)
     \<lparr>err_retryCount = 0, lastError = ''Connection lost'', err_status = Some 404\<rparr> = False
   \<and> retryTimeout (fst (run example_options (fetchSSE example_options, ())
        [Response \<lparr>resp_status = 404, statusText = ''Not Found'', resp_body = True\<rparr>])) = Some (Finite 3000)
   \<and> retryCount (fst (run example_options (fetchSSE example_options, ())
        [Response \<lparr>resp_status = 404, statusText = ''Not Found'', resp_body = True\<rparr>])) = 1
   \<and> isClosed (fst (run example_options (fetchSSE example_options, ())
        [Response \<lparr>resp_status = 404, statusText = ''Not Found'', resp_body = True\<rparr>])) = False
   \<and> readyState (fst (run example_options (fetchSSE example_options, ())
        [Response \<lparr>resp_status = 404, statusText = ''Not Found'', resp_body = True\<rparr>, Timeout])) = 0
   \<and> length (fetched (fst (run example_options (fetchSSE example_options, ())
        [Response \<lparr>resp_status = 404, statusText = ''Not Found'', resp_body = True\<rparr>, Timeout]))) = 2"
  by code_simp

lemma scheduleReconnect_fields:
  "lastEventId (scheduleReconnect opts s) = lastEventId s"
  "currentRetryDelay (scheduleReconnect opts s) = currentRetryDelay s"
  "fetched (scheduleReconnect opts s) = fetched s"
  "retryTimeout (scheduleReconnect opts s) = None
   \<or> retryTimeout (scheduleReconnect opts s) = retryTimeout s
   \<or> retryTimeout (scheduleReconnect opts s) = Some (currentRetryDelay s)"
  by (simp_all add: scheduleReconnect_def close_def Let_def)

lemma on_timeout_fields:
  "lastEventId (on_timeout opts s) = lastEventId s"
  "currentRetryDelay (on_timeout opts s) = currentRetryDelay s"
  "retryTimeout (on_timeout opts s) = None"
  by (simp_all add: on_timeout_def connect_fields Let_def split: option.splits)

lemma close_fields:
  "lastEventId (close s) = lastEventId s"
  "currentRetryDelay (close s) = currentRetryDelay s"
  "retryTimeout (close s) = None"
  "fetched (close s) = fetched s"
  by (simp_all add: close_def)

lemma buildFetchOptions_last_event_id:
  "fo_headers (buildFetchOptions opts s) ''Last-Event-ID'' =
     (case lastEventId s of None \<Rightarrow> headers opts ''Last-Event-ID'' | Some i \<Rightarrow> Some i)"
  by (simp add: buildFetchOptions_def default_headers_def map_add_def Let_def
      split: option.splits body.splits)

section \<open>The frames of a chunk, one after the other\<close>

lemma cuts_of_boundary:
  "indexOf_nn buf = Some b \<Longrightarrow>
   cuts_of buf = (take b buf, drop (b + 2) buf) # cuts_of (drop (b + 2) buf)"
  by (subst cuts_of.simps) simp

lemma cuts_of_no_boundary: "indexOf_nn buf = None \<Longrightarrow> cuts_of buf = []"
  by (subst cuts_of.simps) simp

lemma frames_of_cuts: "frames_of buf = map fst (cuts_of buf)"
proof (induction buf rule: frames_of.induct)
  case (1 buf)
  show ?case
  proof (cases "indexOf_nn buf")
    case None
    then show ?thesis
      by (simp add: cuts_of_no_boundary frames_of.simps [of buf])
  next
    case (Some b)
    with "1.IH" [OF Some] show ?thesis
      by (simp add: cuts_of_boundary frames_of_boundary)
  qed
qed

lemma process_buffer_cuts:
  "process_buffer opts s w = process_frames opts (cuts_of (buffer s)) s w"
proof (induction opts s w rule: process_buffer.induct)
  case (1 opts s w)
  show ?case
  proof (cases "indexOf_nn (buffer s)")
    case None
    then show ?thesis
      by (simp add: process_buffer_no_boundary cuts_of_no_boundary)
  next
    case (Some b)
    let ?f = "take b (buffer s)"
    let ?rest = "drop (b + 2) (buffer s)"
    let ?s1 = "s\<lparr>buffer := ?rest\<rparr>"
    have cuts: "cuts_of (buffer s) = (?f, ?rest) # cuts_of ?rest"
      using Some by (rule cuts_of_boundary)
    show ?thesis
    proof (cases "trim ?f \<noteq> []")
      case False
      have "process_buffer opts s w = process_buffer opts ?s1 w"
        using Some False by (subst process_buffer.simps) simp
      also have "\<dots> = process_frames opts (cuts_of ?rest) ?s1 w"
        using "1.IH"(2) [OF Some False] by simp
      finally show ?thesis
        using False by (simp add: cuts)
    next
      case True
      show ?thesis
      proof (cases "process_frame opts ?f ?s1 w")
        case (Threw e \<sigma>)
        then have "process_buffer opts s w = Threw e \<sigma>"
          using Some True by (subst process_buffer.simps) simp
        with Threw True show ?thesis
          by (simp add: cuts)
      next
        case (Returned \<sigma>)
        then have "process_buffer opts s w = process_buffer opts (fst \<sigma>) (snd \<sigma>)"
          using Some True by (subst process_buffer.simps) simp
        also have "\<dots> = process_frames opts (cuts_of (buffer (fst \<sigma>))) (fst \<sigma>) (snd \<sigma>)"
          by (rule "1.IH"(1) [OF Some True Returned])
        also have "buffer (fst \<sigma>) = ?rest"
          using process_frame_buffer [OF Returned] by simp
        finally show ?thesis
          using True Returned by (simp add: cuts)
      qed
    qed
  qed
qed

lemma then_read_cuts:
  "then_read opts (Chunk chunk) s w =
     process_frames opts (cuts_of (buffer s @ chunk)) (s\<lparr>buffer := buffer s @ chunk\<rparr>) w"
  by (simp add: then_read_def process_buffer_cuts)

lemma process_frames_append:
  "process_frames opts (xs @ ys) s w =
     (case process_frames opts xs s w of
        Threw e \<sigma> \<Rightarrow> Threw e \<sigma>
      | Returned \<sigma> \<Rightarrow> process_frames opts ys (fst \<sigma>) (snd \<sigma>))"
  by (induction xs arbitrary: s w) (simp_all split: outcome.splits)

lemma note_blank_frame:
  "trim f = [] \<Longrightarrow> note_id_and_retry (parseSSEEvent f) s = s"
  by (simp add: parseSSEEvent_blank note_id_and_retry_def)

lemma process_frames_invariant:
  assumes buf: "\<And>t b. Q t \<Longrightarrow> Q (t\<lparr>buffer := b\<rparr>)"
    and frame: "\<And>t g. Q t \<Longrightarrow> g \<in> fst ` set cs \<Longrightarrow> Q (note_id_and_retry (parseSSEEvent g) t)"
    and start: "Q s"
  shows "Q (fst (settled (process_frames opts cs s w)))"
  using frame start
proof (induction cs arbitrary: s w)
  case Nil
  have "fst (settled (process_frames opts [] s w)) = s"
    by (simp add: settled_def)
  with Nil(2) show ?case
    by (simp only:)
next
  case (Cons c cs)
  have Q1: "Q (s\<lparr>buffer := snd c\<rparr>)"
    using Cons.prems(2) by (rule buf)
  have rest: "Q (note_id_and_retry (parseSSEEvent g) t)" if "Q t" and "g \<in> fst ` set cs" for t g
  proof (rule Cons.prems(1) [OF that(1)])
    show "g \<in> fst ` set (c # cs)"
      using that(2) by auto
  qed
  have behind: "Q (fst (settled (process_frames opts cs t v)))" if "Q t" for t v
    using rest that by (rule Cons.IH)
  show ?case
  proof (cases "trim (fst c) \<noteq> []")
    case False
    then have "process_frames opts (c # cs) s w = process_frames opts cs (s\<lparr>buffer := snd c\<rparr>) w"
      by simp
    with behind [OF Q1, of w] show ?thesis
      by (simp only:)
  next
    case True
    have Q2: "Q (note_id_and_retry (parseSSEEvent (fst c)) (s\<lparr>buffer := snd c\<rparr>))"
    proof (rule Cons.prems(1) [OF Q1])
      show "fst c \<in> fst ` set (c # cs)"
        by simp
    qed
    have st: "fst (settled (process_frame opts (fst c) (s\<lparr>buffer := snd c\<rparr>) w)) =
                note_id_and_retry (parseSSEEvent (fst c)) (s\<lparr>buffer := snd c\<rparr>)"
      by (rule process_frame_state)
    show ?thesis
    proof (cases "process_frame opts (fst c) (s\<lparr>buffer := snd c\<rparr>) w")
      case (Threw e \<sigma>)
      then have "process_frames opts (c # cs) s w = Threw e \<sigma>"
        using True by simp
      then have "fst (settled (process_frames opts (c # cs) s w)) = fst \<sigma>"
        by (simp add: settled_def)
      moreover have "fst \<sigma> = note_id_and_retry (parseSSEEvent (fst c)) (s\<lparr>buffer := snd c\<rparr>)"
        using st Threw by (simp add: settled_def)
      ultimately show ?thesis
        using Q2 by (simp only:)
    next
      case (Returned \<sigma>)
      then have eq: "process_frames opts (c # cs) s w = process_frames opts cs (fst \<sigma>) (snd \<sigma>)"
        using True by simp
      have "fst \<sigma> = note_id_and_retry (parseSSEEvent (fst c)) (s\<lparr>buffer := snd c\<rparr>)"
        using st Returned by (simp add: settled_def)
      with Q2 have "Q (fst \<sigma>)"
        by (simp only:)
      then have "Q (fst (settled (process_frames opts cs (fst \<sigma>) (snd \<sigma>))))"
        by (rule behind)
      with eq show ?thesis
        by (simp only:)
    qed
  qed
qed

lemma reached_frame_invariant:
  assumes pre: "process_frames opts pre s0 w = Returned \<tau>"
    and at: "Q (note_id_and_retry (parseSSEEvent f) ((fst \<tau>)\<lparr>buffer := rest\<rparr>))"
    and buf: "\<And>t b. Q t \<Longrightarrow> Q (t\<lparr>buffer := b\<rparr>)"
    and frame: "\<And>t g. Q t \<Longrightarrow> g \<in> fst ` set post \<Longrightarrow> Q (note_id_and_retry (parseSSEEvent g) t)"
  shows "Q (fst (settled (process_frames opts (pre @ (f, rest) # post) s0 w)))"
proof -
  let ?s1 = "(fst \<tau>)\<lparr>buffer := rest\<rparr>"
  let ?s2 = "note_id_and_retry (parseSSEEvent f) ?s1"
  have split: "process_frames opts (pre @ (f, rest) # post) s0 w =
                 process_frames opts ((f, rest) # post) (fst \<tau>) (snd \<tau>)"
    by (simp add: process_frames_append pre)
  have behind: "Q (fst (settled (process_frames opts post ?s2 v)))" for v
    using buf frame at by (rule process_frames_invariant)
  have st: "fst (settled (process_frame opts f ?s1 (snd \<tau>))) = ?s2"
    by (rule process_frame_state)
  show ?thesis
  proof (cases "trim f \<noteq> []")
    case False
    then have "?s2 = ?s1"
      by (simp add: note_blank_frame)
    moreover have "process_frames opts ((f, rest) # post) (fst \<tau>) (snd \<tau>) =
                     process_frames opts post ?s1 (snd \<tau>)"
      using False by simp
    ultimately show ?thesis
      using behind [of "snd \<tau>"] split by (simp only:)
  next
    case True
    show ?thesis
    proof (cases "process_frame opts f ?s1 (snd \<tau>)")
      case (Threw e \<sigma>)
      then have "process_frames opts ((f, rest) # post) (fst \<tau>) (snd \<tau>) = Threw e \<sigma>"
        using True by simp
      then have "fst (settled (process_frames opts (pre @ (f, rest) # post) s0 w)) = fst \<sigma>"
        by (simp add: split settled_def)
      moreover have "fst \<sigma> = ?s2"
        using st Threw by (simp add: settled_def)
      ultimately show ?thesis
        using at by (simp only:)
    next
      case (Returned \<sigma>)
      then have "process_frames opts ((f, rest) # post) (fst \<tau>) (snd \<tau>) =
                   process_frames opts post (fst \<sigma>) (snd \<sigma>)"
        using True by simp
      moreover have "fst \<sigma> = ?s2"
        using st Returned by (simp add: settled_def)
      ultimately show ?thesis
        using behind [of "snd \<sigma>"] split by (simp only:)
    qed
  qed
qed

lemma process_frame_without_data:
  assumes "\<forall>part \<in> set (js_split f). field_name part \<noteq> Some ''data''"
  shows "process_frame opts f s w = Returned (note_id_and_retry (parseSSEEvent f) s, w)"
proof -
  have "eventDataString (parseSSEEvent f) = []"
    using assms by (simp add: parseSSEEvent_def foldl_no_data)
  then show ?thesis
    by (simp add: process_frame_def Let_def)
qed

text \<open>
  Claim C7, as the code has it. Take a complete frame without a data line at any place
  of the buffered text, with the frames \<open>pre\<close> before it and \<open>post\<close> behind it. The frames
  before it are processed first. When a listener throws there, the loop ends and the
  frame is never parsed. Otherwise the frame dispatches nothing: the world goes on
  unchanged to the frames behind it, whatever listeners are registered, and the state
  goes on with the last event id set to the value of the frame's last id line when it
  has one and the retry delay set to the number of its last retry line that has one.
\<close>

theorem frame_without_data_when_reached:
  assumes "cuts_of (buffer s @ chunk) = pre @ (f, rest) # post"
    and "\<forall>part \<in> set (js_split f). field_name part \<noteq> Some ''data''"
  shows "then_read opts (Chunk chunk) s w =
           (case process_frames opts pre (s\<lparr>buffer := buffer s @ chunk\<rparr>) w of
              Threw e \<sigma> \<Rightarrow> Threw e \<sigma>
            | Returned \<sigma> \<Rightarrow>
                process_frames opts post
                  ((fst \<sigma>)\<lparr>buffer := rest,
                     lastEventId := (case eventId (parseSSEEvent f) of
                                       None \<Rightarrow> lastEventId (fst \<sigma>) | Some i \<Rightarrow> Some i),
                     currentRetryDelay := (case retry (parseSSEEvent f) of
                                             None \<Rightarrow> currentRetryDelay (fst \<sigma>) | Some r \<Rightarrow> r)\<rparr>)
                  (snd \<sigma>))
       \<and> eventId (parseSSEEvent f) =
           (case filter (\<lambda>p. field_name p = Some ''id'') (js_split f) of
              [] \<Rightarrow> None | q # qs \<Rightarrow> field_value (last (q # qs)))
       \<and> retry (parseSSEEvent f) =
           (case filter (\<lambda>p. retry_directive p \<noteq> None) (js_split f) of
              [] \<Rightarrow> None | q # qs \<Rightarrow> retry_directive (last (q # qs)))"
proof -
  have noted: "note_id_and_retry (parseSSEEvent f) (t\<lparr>buffer := rest\<rparr>) =
           t\<lparr>buffer := rest,
             lastEventId := (case eventId (parseSSEEvent f) of
                               None \<Rightarrow> lastEventId t | Some i \<Rightarrow> Some i),
             currentRetryDelay := (case retry (parseSSEEvent f) of
                                     None \<Rightarrow> currentRetryDelay t | Some r \<Rightarrow> r)\<rparr>"
    for t :: "'a sse"
    by (simp add: note_id_and_retry_def Let_def split: option.splits)
  have one: "process_frames opts ((f, rest) # post) t v =
               process_frames opts post (note_id_and_retry (parseSSEEvent f) (t\<lparr>buffer := rest\<rparr>)) v"
    for t :: "'a sse" and v
    using process_frame_without_data [OF assms(2), of opts "t\<lparr>buffer := rest\<rparr>" v]
    by (simp add: note_blank_frame)
  have main: "then_read opts (Chunk chunk) s w =
           (case process_frames opts pre (s\<lparr>buffer := buffer s @ chunk\<rparr>) w of
              Threw e \<sigma> \<Rightarrow> Threw e \<sigma>
            | Returned \<sigma> \<Rightarrow>
                process_frames opts post
                  ((fst \<sigma>)\<lparr>buffer := rest,
                     lastEventId := (case eventId (parseSSEEvent f) of
                                       None \<Rightarrow> lastEventId (fst \<sigma>) | Some i \<Rightarrow> Some i),
                     currentRetryDelay := (case retry (parseSSEEvent f) of
                                             None \<Rightarrow> currentRetryDelay (fst \<sigma>) | Some r \<Rightarrow> r)\<rparr>)
                  (snd \<sigma>))"
    unfolding then_read_cuts assms(1) process_frames_append
    by (simp only: one noted)
  have ids: "eventId (parseSSEEvent f) =
           (case filter (\<lambda>p. field_name p = Some ''id'') (js_split f) of
              [] \<Rightarrow> None | q # qs \<Rightarrow> field_value (last (q # qs)))"
    by (simp add: parseSSEEvent_def foldl_eventId split: list.splits)
  have rets: "retry (parseSSEEvent f) =
           (case filter (\<lambda>p. retry_directive p \<noteq> None) (js_split f) of
              [] \<Rightarrow> None | q # qs \<Rightarrow> retry_directive (last (q # qs)))"
    by (simp add: parseSSEEvent_def foldl_retry split: list.splits)
  from main ids rets show ?thesis
    by blast
qed

text \<open>
  The theorem at a chunk of two frames on the open example connection: the first has a
  payload, which the recorder logs; the second has an id line, a retry line and a
  comment.
\<close>

theorem frame_without_data_when_reached_witness:
  "cuts_of (buffer example_open @ ''data: x\<newline>\<newline>id: 5\<newline>retry: 100\<newline>: note\<newline>\<newline>'') =
     [(''data: x'', ''id: 5\<newline>retry: 100\<newline>: note\<newline>\<newline>'')] @ (''id: 5\<newline>retry: 100\<newline>: note'', []) # []
   \<and> list_all (\<lambda>part. field_name part \<noteq> Some ''data'') (js_split ''id: 5\<newline>retry: 100\<newline>: note'')
   \<and> then_read example_options (Chunk ''data: x\<newline>\<newline>id: 5\<newline>retry: 100\<newline>: note\<newline>\<newline>'') example_open [] =
       Returned (example_open\<lparr>buffer := [], lastEventId := Some ''5'', currentRetryDelay := Finite 100\<rparr>,
         [\<lparr>ev_type = ''message'', ev_data = Some ''x'', ev_lastEventId = None,
           ev_origin = ''https://example.org''\<rparr>])"
proof -
  have b: "buffer example_open = []"
    by code_simp
  have c: "cuts_of ''data: x\<newline>\<newline>id: 5\<newline>retry: 100\<newline>: note\<newline>\<newline>'' =
     [(''data: x'', ''id: 5\<newline>retry: 100\<newline>: note\<newline>\<newline>''), (''id: 5\<newline>retry: 100\<newline>: note'', [])]"
    by code_simp
  have h1: "cuts_of (buffer example_open @ ''data: x\<newline>\<newline>id: 5\<newline>retry: 100\<newline>: note\<newline>\<newline>'') =
     [(''data: x'', ''id: 5\<newline>retry: 100\<newline>: note\<newline>\<newline>'')] @ (''id: 5\<newline>retry: 100\<newline>: note'', []) # []"
    by (simp add: b c)
  have h2: "list_all (\<lambda>part. field_name part \<noteq> Some ''data'') (js_split ''id: 5\<newline>retry: 100\<newline>: note'')"
    by code_simp
  have h2': "\<forall>part \<in> set (js_split ''id: 5\<newline>retry: 100\<newline>: note''). field_name part \<noteq> Some ''data''"
    using h2 by (simp only: list_all_iff)
  have p: "parseSSEEvent ''id: 5\<newline>retry: 100\<newline>: note'' =
             \<lparr>eventName = ''message'', eventDataString = [], eventId = Some ''5'', retry = Some (Finite 100)\<rparr>"
    by code_simp
  have px: "parseSSEEvent ''data: x'' =
             \<lparr>eventName = ''message'', eventDataString = ''x'', eventId = None, retry = None\<rparr>"
    by code_simp
  have tx: "trim ''data: x'' \<noteq> []"
    by code_simp
  have d: "dispatchEvent example_options
             (example_open\<lparr>buffer := ''id: 5\<newline>retry: 100\<newline>: note\<newline>\<newline>''\<rparr>) ''message'' (Some ''x'') None [] =
           Returned [\<lparr>ev_type = ''message'', ev_data = Some ''x'', ev_lastEventId = None,
             ev_origin = ''https://example.org''\<rparr>]"
    by code_simp
  have before: "process_frames example_options
                  [(''data: x'', ''id: 5\<newline>retry: 100\<newline>: note\<newline>\<newline>'')]
                  (example_open\<lparr>buffer := buffer example_open
                     @ ''data: x\<newline>\<newline>id: 5\<newline>retry: 100\<newline>: note\<newline>\<newline>''\<rparr>) [] =
                Returned (example_open\<lparr>buffer := ''id: 5\<newline>retry: 100\<newline>: note\<newline>\<newline>''\<rparr>,
                  [\<lparr>ev_type = ''message'', ev_data = Some ''x'', ev_lastEventId = None,
                    ev_origin = ''https://example.org''\<rparr>])"
    by (simp add: tx process_frame_def px note_id_and_retry_def d)
  have "then_read example_options (Chunk ''data: x\<newline>\<newline>id: 5\<newline>retry: 100\<newline>: note\<newline>\<newline>'') example_open [] =
          (case process_frames example_options
                  [(''data: x'', ''id: 5\<newline>retry: 100\<newline>: note\<newline>\<newline>'')]
                  (example_open\<lparr>buffer := buffer example_open
                     @ ''data: x\<newline>\<newline>id: 5\<newline>retry: 100\<newline>: note\<newline>\<newline>''\<rparr>) [] of
             Threw e \<sigma> \<Rightarrow> Threw e \<sigma>
           | Returned \<sigma> \<Rightarrow>
               process_frames example_options []
                 ((fst \<sigma>)\<lparr>buffer := [],
                    lastEventId := (case eventId (parseSSEEvent ''id: 5\<newline>retry: 100\<newline>: note'') of
                                      None \<Rightarrow> lastEventId (fst \<sigma>) | Some i \<Rightarrow> Some i),
                    currentRetryDelay := (case retry (parseSSEEvent ''id: 5\<newline>retry: 100\<newline>: note'') of
                                            None \<Rightarrow> currentRetryDelay (fst \<sigma>) | Some r \<Rightarrow> r)\<rparr>)
                 (snd \<sigma>))"
    using frame_without_data_when_reached [OF h1 h2', of example_options "[]"] by blast
  then have "then_read example_options (Chunk ''data: x\<newline>\<newline>id: 5\<newline>retry: 100\<newline>: note\<newline>\<newline>'') example_open [] =
       Returned (example_open\<lparr>buffer := [], lastEventId := Some ''5'', currentRetryDelay := Finite 100\<rparr>,
         [\<lparr>ev_type = ''message'', ev_data = Some ''x'', ev_lastEventId = None,
           ev_origin = ''https://example.org''\<rparr>])"
    unfolding before by (simp add: p)
  with h1 h2 show ?thesis
    by blast
qed

text \<open>
  Claim C7 as the specification words it fails: in the chunk
  \<^verbatim>\<open>data: x\n\nid: 5\n\n\<close> the second frame is complete and has an id and no data, but when
  the listener of the first throws, the last event id is not updated, neither then nor
  after the reconnection, which starts with an empty buffer.
\<close>

theorem unreached_frame_counterexample:
  "cuts_of ''data: x\<newline>\<newline>id: 5\<newline>\<newline>'' = [(''data: x'', ''id: 5\<newline>\<newline>''), (''id: 5'', [])]
   \<and> list_all (\<lambda>part. field_name part \<noteq> Some ''data'') (js_split ''id: 5'')
   \<and> eventId (parseSSEEvent ''id: 5'') = Some ''5''
   \<and> lastEventId (fst (run example_options
         (example_open\<lparr>listeners := [''message'' \<mapsto> [thrower]]\<rparr>, [])
         [Read (Chunk ''data: x\<newline>\<newline>id: 5\<newline>\<newline>'')])) = None
   \<and> lastEventId (fst (run example_options
         (example_open\<lparr>listeners := [''message'' \<mapsto> [thrower]]\<rparr>, [])
         [Read (Chunk ''data: x\<newline>\<newline>id: 5\<newline>\<newline>''), Timeout,
          Response \<lparr>resp_status = 200, statusText = ''OK'', resp_body = True\<rparr>])) = None
   \<and> buffer (fst (run example_options
         (example_open\<lparr>listeners := [''message'' \<mapsto> [thrower]]\<rparr>, [])
         [Read (Chunk ''data: x\<newline>\<newline>id: 5\<newline>\<newline>''), Timeout,
          Response \<lparr>resp_status = 200, statusText = ''OK'', resp_body = True\<rparr>])) = []"
  by code_simp

text \<open>
  Claim C5. Take a chunk in which the read loop reaches a frame with the retry value
  \<open>d\<close> (the frames before it are processed without a throw) and in which no frame behind
  it has a retry value. After that chunk, and as long as no later input brings another
  retry directive, the delay of the connection is \<open>d\<close> and a pending reconnection timer
  was armed with \<open>d\<close>; \<open>scheduleReconnect\<close>, when it retries, arms the timer with the delay
  of the connection. Frames without a retry field, ends of the stream, failures,
  reconnections and calls of the caller leave the delay alone.
\<close>

theorem retry_directive_overrides_delay:
  fixes s :: "'w sse"
  assumes "cuts_of (buffer s @ chunk) = pre @ (f, rest) # post"
    and "process_frames opts pre (s\<lparr>buffer := buffer s @ chunk\<rparr>) w = Returned \<tau>"
    and "retry (parseSSEEvent f) = Some d"
    and "\<forall>g \<in> set post. retry (parseSSEEvent (fst g)) = None"
    and "retryTimeout s = None"
    and "undisturbed carries_retry opts (step opts (s, w) (Read (Chunk chunk))) inputs"
  shows "currentRetryDelay (fst (run opts (s, w) (Read (Chunk chunk) # inputs))) = d
       \<and> (retryTimeout (fst (run opts (s, w) (Read (Chunk chunk) # inputs))) = None
          \<or> retryTimeout (fst (run opts (s, w) (Read (Chunk chunk) # inputs))) = Some d)
       \<and> (\<forall>t :: 'w sse.
            \<not> isClosed t
            \<and> shouldRetry opts (t\<lparr>retryTimeout := None\<rparr>)
                 \<lparr>err_retryCount = retryCount t, lastError = ''Connection lost'',
                  err_status = None\<rparr> \<longrightarrow>
            retryTimeout (scheduleReconnect opts t) = Some (currentRetryDelay t))"
proof -
  let ?Q = "\<lambda>t :: 'w sse. currentRetryDelay t = d \<and> (retryTimeout t = None \<or> retryTimeout t = Some d)"
  let ?s0 = "s\<lparr>buffer := buffer s @ chunk\<rparr>"
  let ?\<sigma> = "step opts (s, w) (Read (Chunk chunk))"
  have sched: "?Q (scheduleReconnect opts t)" if "?Q t" for t
    using that scheduleReconnect_fields(4) [of opts t] by (auto simp: scheduleReconnect_fields)
  have "retryTimeout (fst (settled (process_frames opts pre ?s0 w))) = None"
    by (rule process_frames_invariant [where Q = "\<lambda>t. retryTimeout t = None"])
      (simp_all add: note_id_and_retry_fields assms(5))
  then have idle: "retryTimeout (fst \<tau>) = None"
    by (simp add: assms(2) settled_def)
  have "?Q (fst (settled (process_frames opts (pre @ (f, rest) # post) ?s0 w)))"
  proof (rule reached_frame_invariant [OF assms(2)])
    show "?Q (note_id_and_retry (parseSSEEvent f) ((fst \<tau>)\<lparr>buffer := rest\<rparr>))"
      using assms(3) idle by (simp add: note_id_and_retry_fields)
    show "?Q (t\<lparr>buffer := b\<rparr>)" if "?Q t" for t b
      using that by simp
    show "?Q (note_id_and_retry (parseSSEEvent g) t)" if "?Q t" and "g \<in> fst ` set post" for t g
    proof -
      from that(2) assms(4) have "retry (parseSSEEvent g) = None"
        by auto
      with that(1) show ?thesis
        by (simp add: note_id_and_retry_fields)
    qed
  qed
  then have "?Q (fst (settled (then_read opts (Chunk chunk) s w)))"
    by (simp only: then_read_cuts assms(1))
  then have "?Q (fst (settled (on_read opts (Chunk chunk) s w)))"
    unfolding on_read_def using sched by (rule caught_invariant)
  then have first: "?Q (fst ?\<sigma>)"
    by (simp add: step_def)
  have step: "?Q (fst (step opts \<rho> i))" if "?Q (fst \<rho>)" and "\<not> carries_retry (fst \<rho>) i" for \<rho> i
    using that(1)
  proof (rule step_invariant)
    show "?Q (note_id_and_retry (parseSSEEvent g) t)"
      if "i = Read (Chunk c)" and "g \<in> set (frames_of (buffer (fst \<rho>) @ c))" and "?Q t"
      for t c g
    proof -
      from that(1,2) \<open>\<not> carries_retry (fst \<rho>) i\<close> have "retry (parseSSEEvent g) = None"
        by (auto simp: carries_retry_def list_ex_iff)
      with that(3) show ?thesis
        by (simp add: note_id_and_retry_fields)
    qed
    show "?Q (scheduleReconnect opts t)" if "?Q t" for t
      using that by (rule sched)
  qed (simp_all add: on_timeout_fields close_fields setLastEventId_def)
  have "?Q (fst (run opts ?\<sigma> inputs))"
  proof (rule run_invariant [where Q = ?Q and P = carries_retry])
    show "?Q (fst \<rho>) \<Longrightarrow> \<not> carries_retry (fst \<rho>) i \<Longrightarrow> ?Q (fst (step opts \<rho> i))" for \<rho> i
      by (rule step)
    show "?Q (fst ?\<sigma>)" by (rule first)
    show "undisturbed carries_retry opts ?\<sigma> inputs" by (rule assms(6))
  qed
  moreover have "run opts (s, w) (Read (Chunk chunk) # inputs) = run opts ?\<sigma> inputs"
    by (simp add: run_def)
  moreover have "retryTimeout (scheduleReconnect opts t) = Some (currentRetryDelay t)"
    if "\<not> isClosed t"
      and "shouldRetry opts (t\<lparr>retryTimeout := None\<rparr>)
             \<lparr>err_retryCount = retryCount t, lastError = ''Connection lost'', err_status = None\<rparr>"
    for t :: "'w sse"
    using that by (simp add: scheduleReconnect_def Let_def)
  ultimately show ?thesis
    by simp
qed

text \<open>
  The theorem on the open example connection: a chunk of three frames with
  \<^verbatim>\<open>retry: 5000\<close> in the middle, a chunk without a retry field, then the end of the
  stream. The timer is armed with 5000, not with the 3000 of the options.
\<close>

theorem retry_directive_overrides_delay_witness:
  "cuts_of (buffer example_open @ ''data: x\<newline>\<newline>retry: 5000\<newline>\<newline>data: y\<newline>\<newline>'') =
     [(''data: x'', ''retry: 5000\<newline>\<newline>data: y\<newline>\<newline>'')] @ (''retry: 5000'', ''data: y\<newline>\<newline>'') # [(''data: y'', [])]
   \<and> process_frames example_options [(''data: x'', ''retry: 5000\<newline>\<newline>data: y\<newline>\<newline>'')]
        (example_open\<lparr>buffer := buffer example_open @ ''data: x\<newline>\<newline>retry: 5000\<newline>\<newline>data: y\<newline>\<newline>''\<rparr>) [] =
       Returned (example_open\<lparr>buffer := ''retry: 5000\<newline>\<newline>data: y\<newline>\<newline>''\<rparr>,
         [\<lparr>ev_type = ''message'', ev_data = Some ''x'', ev_lastEventId = None,
           ev_origin = ''https://example.org''\<rparr>])
   \<and> retry (parseSSEEvent ''retry: 5000'') = Some (Finite 5000)
   \<and> list_all (\<lambda>g. retry (parseSSEEvent (fst g)) = None) [(''data: y'', [])]
   \<and> retryTimeout example_open = None
   \<and> undisturbed carries_retry example_options
        (step example_options (example_open, [])
           (Read (Chunk ''data: x\<newline>\<newline>retry: 5000\<newline>\<newline>data: y\<newline>\<newline>'')))
        [Read (Chunk ''data: z\<newline>\<newline>''), Read Done]
   \<and> currentRetryDelay (fst (run example_options (example_open, [])
        (Read (Chunk ''data: x\<newline>\<newline>retry: 5000\<newline>\<newline>data: y\<newline>\<newline>'')
         # [Read (Chunk ''data: z\<newline>\<newline>''), Read Done]))) = Finite 5000
   \<and> retryTimeout (fst (run example_options (example_open, [])
        (Read (Chunk ''data: x\<newline>\<newline>retry: 5000\<newline>\<newline>data: y\<newline>\<newline>'')
         # [Read (Chunk ''data: z\<newline>\<newline>''), Read Done]))) = Some (Finite 5000)
   \<and> retryDelay example_options = Finite 3000"
proof -
  have b: "buffer example_open = []"
    by code_simp
  have c: "cuts_of ''data: x\<newline>\<newline>retry: 5000\<newline>\<newline>data: y\<newline>\<newline>'' =
     [(''data: x'', ''retry: 5000\<newline>\<newline>data: y\<newline>\<newline>''), (''retry: 5000'', ''data: y\<newline>\<newline>''),
      (''data: y'', [])]"
    by code_simp
  have h1: "cuts_of (buffer example_open @ ''data: x\<newline>\<newline>retry: 5000\<newline>\<newline>data: y\<newline>\<newline>'') =
     [(''data: x'', ''retry: 5000\<newline>\<newline>data: y\<newline>\<newline>'')] @ (''retry: 5000'', ''data: y\<newline>\<newline>'') # [(''data: y'', [])]"
    by (simp add: b c)
  have px: "parseSSEEvent ''data: x'' =
             \<lparr>eventName = ''message'', eventDataString = ''x'', eventId = None, retry = None\<rparr>"
    by code_simp
  have tx: "trim ''data: x'' \<noteq> []"
    by code_simp
  have d: "dispatchEvent example_options
             (example_open\<lparr>buffer := ''retry: 5000\<newline>\<newline>data: y\<newline>\<newline>''\<rparr>) ''message'' (Some ''x'') None [] =
           Returned [\<lparr>ev_type = ''message'', ev_data = Some ''x'', ev_lastEventId = None,
             ev_origin = ''https://example.org''\<rparr>]"
    by code_simp
  have h2: "process_frames example_options [(''data: x'', ''retry: 5000\<newline>\<newline>data: y\<newline>\<newline>'')]
        (example_open\<lparr>buffer := buffer example_open @ ''data: x\<newline>\<newline>retry: 5000\<newline>\<newline>data: y\<newline>\<newline>''\<rparr>) [] =
       Returned (example_open\<lparr>buffer := ''retry: 5000\<newline>\<newline>data: y\<newline>\<newline>''\<rparr>,
         [\<lparr>ev_type = ''message'', ev_data = Some ''x'', ev_lastEventId = None,
           ev_origin = ''https://example.org''\<rparr>])"
    by (simp add: tx process_frame_def px note_id_and_retry_def d)
  have h3: "retry (parseSSEEvent ''retry: 5000'') = Some (Finite 5000)"
    by code_simp
  have h4: "list_all (\<lambda>g. retry (parseSSEEvent (fst g)) = None) [(''data: y'', [])]"
    by code_simp
  have h4': "\<forall>g \<in> set [(''data: y'', [])]. retry (parseSSEEvent (fst g)) = None"
    using h4 by (simp only: list_all_iff)
  have h5: "retryTimeout example_open = None"
    by code_simp
  have h6: "undisturbed carries_retry example_options
        (step example_options (example_open, [])
           (Read (Chunk ''data: x\<newline>\<newline>retry: 5000\<newline>\<newline>data: y\<newline>\<newline>'')))
        [Read (Chunk ''data: z\<newline>\<newline>''), Read Done]"
    by code_simp
  have armed: "retryTimeout (fst (run example_options (example_open, [])
        (Read (Chunk ''data: x\<newline>\<newline>retry: 5000\<newline>\<newline>data: y\<newline>\<newline>'')
         # [Read (Chunk ''data: z\<newline>\<newline>''), Read Done]))) = Some (Finite 5000)"
    by code_simp
  have dflt: "retryDelay example_options = Finite 3000"
    by code_simp
  have "currentRetryDelay (fst (run example_options (example_open, [])
        (Read (Chunk ''data: x\<newline>\<newline>retry: 5000\<newline>\<newline>data: y\<newline>\<newline>'')
         # [Read (Chunk ''data: z\<newline>\<newline>''), Read Done]))) = Finite 5000"
    using retry_directive_overrides_delay [OF h1 h2 h3 h4' h5 h6] by blast
  with h1 h2 h3 h4 h5 h6 armed dflt show ?thesis
    by blast
qed

text \<open>
  Claim C4, as the code has it. The request that \<open>connect\<close> builds has the header
  \<^verbatim>\<open>Last-Event-ID\<close> with the last event id of the connection; without one the code adds
  no such header, and the request has the one of the caller's own \<^verbatim>\<open>headers\<close>, if any. The
  reconnection when the timer fires makes exactly this request. A call of
  \<^verbatim>\<open>setLastEventId\<close> writes the last event id, and so does a chunk: the id of the last
  frame with an id that the read loop reaches wins. No run without a call
  \<^verbatim>\<open>setLastEventId(null)\<close> clears an id that is set, and in a run in which nothing writes
  the id it stays the same and every request made carries it.
\<close>

theorem last_event_id_resumption:
  fixes s :: "'w sse" and \<sigma> :: "'w sse \<times> 'w"
  shows "fo_headers (buildFetchOptions opts s) ''Last-Event-ID'' =
           (case lastEventId s of None \<Rightarrow> headers opts ''Last-Event-ID'' | Some i \<Rightarrow> Some i)
       \<and> (retryTimeout s \<noteq> None \<and> \<not> isClosed s \<longrightarrow>
            (\<exists>fo. fetched (on_timeout opts s) = fetched s @ [fo]
                 \<and> fo_headers fo ''Last-Event-ID'' =
                     (case lastEventId s of
                        None \<Rightarrow> headers opts ''Last-Event-ID'' | Some i \<Rightarrow> Some i)))
       \<and> lastEventId (fst (step opts \<sigma> (CallSetLastEventId v))) = v
       \<and> (cuts_of (buffer (fst \<sigma>) @ chunk) = pre @ (f, rest) # post
              \<and> process_frames opts pre ((fst \<sigma>)\<lparr>buffer := buffer (fst \<sigma>) @ chunk\<rparr>) (snd \<sigma>)
                  = Returned \<tau>
              \<and> eventId (parseSSEEvent f) = Some i
              \<and> (\<forall>g \<in> set post. eventId (parseSSEEvent (fst g)) = None) \<longrightarrow>
            lastEventId (fst (step opts \<sigma> (Read (Chunk chunk)))) = Some i)
       \<and> (lastEventId (fst \<sigma>) \<noteq> None \<and> CallSetLastEventId None \<notin> set inputs \<longrightarrow>
            lastEventId (fst (run opts \<sigma> inputs)) \<noteq> None)
       \<and> (undisturbed writes_id opts \<sigma> inputs \<longrightarrow>
            lastEventId (fst (run opts \<sigma> inputs)) = lastEventId (fst \<sigma>)
            \<and> (\<forall>fo \<in> set (drop (length (fetched (fst \<sigma>))) (fetched (fst (run opts \<sigma> inputs)))).
                  fo_headers fo ''Last-Event-ID'' =
                    (case lastEventId (fst \<sigma>) of
                       None \<Rightarrow> headers opts ''Last-Event-ID'' | Some i \<Rightarrow> Some i)))"
proof -
  let ?hdr = "\<lambda>l. case l of None \<Rightarrow> headers opts ''Last-Event-ID'' | Some i \<Rightarrow> Some i"
  have request: "fo_headers (buildFetchOptions opts t) ''Last-Event-ID'' = ?hdr (lastEventId t)"
    for t :: "'w sse"
    by (rule buildFetchOptions_last_event_id)
  have reconnect: "\<exists>fo. fetched (on_timeout opts s) = fetched s @ [fo]
                 \<and> fo_headers fo ''Last-Event-ID'' = ?hdr (lastEventId s)"
    if "retryTimeout s \<noteq> None" and "\<not> isClosed s"
    using that by (auto simp: on_timeout_def connect_fields request Let_def)
  have set_id: "lastEventId (fst (step opts \<sigma> (CallSetLastEventId v))) = v"
    by (simp add: step_def setLastEventId_def)
  have frame_id: "lastEventId (fst (step opts \<sigma> (Read (Chunk chunk)))) = Some i"
    if cuts: "cuts_of (buffer (fst \<sigma>) @ chunk) = pre @ (f, rest) # post"
      and before: "process_frames opts pre ((fst \<sigma>)\<lparr>buffer := buffer (fst \<sigma>) @ chunk\<rparr>) (snd \<sigma>)
                     = Returned \<tau>"
      and id: "eventId (parseSSEEvent f) = Some i"
      and behind: "\<forall>g \<in> set post. eventId (parseSSEEvent (fst g)) = None"
  proof -
    let ?Q = "\<lambda>t :: 'w sse. lastEventId t = Some i"
    have "?Q (fst (settled (process_frames opts (pre @ (f, rest) # post)
                  ((fst \<sigma>)\<lparr>buffer := buffer (fst \<sigma>) @ chunk\<rparr>) (snd \<sigma>))))"
    proof (rule reached_frame_invariant [OF before])
      show "?Q (note_id_and_retry (parseSSEEvent f) ((fst \<tau>)\<lparr>buffer := rest\<rparr>))"
        using id by (simp add: note_id_and_retry_fields)
      show "?Q (t\<lparr>buffer := b\<rparr>)" if "?Q t" for t b
        using that by simp
      show "?Q (note_id_and_retry (parseSSEEvent g) t)" if "?Q t" and "g \<in> fst ` set post" for t g
      proof -
        from that(2) behind have "eventId (parseSSEEvent g) = None"
          by auto
        with that(1) show ?thesis
          by (simp add: note_id_and_retry_fields)
      qed
    qed
    then have "?Q (fst (settled (then_read opts (Chunk chunk) (fst \<sigma>) (snd \<sigma>))))"
      by (simp only: then_read_cuts cuts)
    then have "?Q (fst (settled (on_read opts (Chunk chunk) (fst \<sigma>) (snd \<sigma>))))"
      unfolding on_read_def
      by (rule caught_invariant) (simp add: scheduleReconnect_fields)
    then show ?thesis
      by (simp add: step_def)
  qed
  have kept: "lastEventId (fst (run opts \<sigma> inputs)) \<noteq> None"
    if start: "lastEventId (fst \<sigma>) \<noteq> None" and calls: "CallSetLastEventId None \<notin> set inputs"
  proof -
    let ?Q = "\<lambda>t :: 'w sse. lastEventId t \<noteq> None"
    let ?P = "\<lambda>(t :: 'w sse) (i :: 'w input). i = CallSetLastEventId None"
    have quiet: "undisturbed ?P opts \<sigma> inputs"
      using calls by (auto simp: undisturbed_static)
    show ?thesis
    proof (rule run_invariant [where Q = ?Q and P = ?P])
      show "?Q (fst \<rho>) \<Longrightarrow> \<not> ?P (fst \<rho>) i \<Longrightarrow> ?Q (fst (step opts \<rho> i))" for \<rho> i
        by (rule step_invariant [where Q = ?Q])
          (auto simp: note_id_and_retry_fields scheduleReconnect_fields on_timeout_fields
            close_fields setLastEventId_def split: option.splits)
      show "?Q (fst \<sigma>)" by (rule start)
      show "undisturbed ?P opts \<sigma> inputs" by (rule quiet)
    qed
  qed
  have stable: "lastEventId (fst (run opts \<sigma> inputs)) = lastEventId (fst \<sigma>)
            \<and> (\<forall>fo \<in> set (drop (length (fetched (fst \<sigma>))) (fetched (fst (run opts \<sigma> inputs)))).
                  fo_headers fo ''Last-Event-ID'' = ?hdr (lastEventId (fst \<sigma>)))"
    if quiet: "undisturbed writes_id opts \<sigma> inputs"
  proof -
    define L where "L = lastEventId (fst \<sigma>)"
    define n where "n = length (fetched (fst \<sigma>))"
    let ?Q = "\<lambda>t :: 'w sse. lastEventId t = L \<and> n \<le> length (fetched t)
                \<and> (\<forall>fo \<in> set (drop n (fetched t)). fo_headers fo ''Last-Event-ID'' = ?hdr L)"
    have step: "?Q (fst (step opts \<rho> i))" if "?Q (fst \<rho>)" and "\<not> writes_id (fst \<rho>) i" for \<rho> i
      using that(1)
    proof (rule step_invariant)
      show "?Q (note_id_and_retry (parseSSEEvent g) t)"
        if "i = Read (Chunk c)" and "g \<in> set (frames_of (buffer (fst \<rho>) @ c))" and "?Q t"
        for t c g
      proof -
        from that(1,2) \<open>\<not> writes_id (fst \<rho>) i\<close> have "eventId (parseSSEEvent g) = None"
          by (auto simp: writes_id_def list_ex_iff)
        with that(3) show ?thesis
          by (simp add: note_id_and_retry_fields)
      qed
      show "?Q (on_timeout opts t)" if "?Q t" for t
        using that by (auto simp: on_timeout_def connect_fields request Let_def split: option.splits)
      show "?Q (setLastEventId v t)" if "i = CallSetLastEventId v" for t v
        using that \<open>\<not> writes_id (fst \<rho>) i\<close> by (simp add: writes_id_def)
    qed (simp_all add: scheduleReconnect_fields close_fields)
    have "?Q (fst (run opts \<sigma> inputs))"
    proof (rule run_invariant [where Q = ?Q and P = writes_id])
      show "?Q (fst \<rho>) \<Longrightarrow> \<not> writes_id (fst \<rho>) i \<Longrightarrow> ?Q (fst (step opts \<rho> i))" for \<rho> i
        by (rule step)
      show "?Q (fst \<sigma>)" by (simp add: L_def n_def)
      show "undisturbed writes_id opts \<sigma> inputs" by (rule quiet)
    qed
    then show ?thesis
      by (simp add: L_def n_def)
  qed
  from request [of s] reconnect set_id frame_id kept stable show ?thesis
    by blast
qed

text \<open>
  Claim C4 as the specification words it fails: with \<^verbatim>\<open>Last-Event-ID\<close> among the caller's
  headers and no id ever set, the first request and the reconnection after a response
  503 both carry the caller's value.
\<close>

theorem caller_header_counterexample:
  "lastEventId (fst (run (example_options\<lparr>headers := [''Last-Event-ID'' \<mapsto> ''cfg'']\<rparr>)
       (fetchSSE (example_options\<lparr>headers := [''Last-Event-ID'' \<mapsto> ''cfg'']\<rparr>), ())
       [Response \<lparr>resp_status = 503, statusText = ''Service Unavailable'', resp_body = True\<rparr>,
        Timeout])) = None
   \<and> map (\<lambda>fo. fo_headers fo ''Last-Event-ID'')
       (fetched (fst (run (example_options\<lparr>headers := [''Last-Event-ID'' \<mapsto> ''cfg'']\<rparr>)
          (fetchSSE (example_options\<lparr>headers := [''Last-Event-ID'' \<mapsto> ''cfg'']\<rparr>), ())
          [Response \<lparr>resp_status = 503, statusText = ''Service Unavailable'', resp_body = True\<rparr>,
           Timeout]))) = [Some ''cfg'', Some ''cfg'']"
  by code_simp

text \<open>
  The theorem on the open example connection with the last event id \<^verbatim>\<open>7\<close>. A chunk of
  two frames with the ids \<^verbatim>\<open>5\<close> and \<^verbatim>\<open>6\<close> leaves \<^verbatim>\<open>6\<close>. A frame without id, the end of the
  stream, a reconnection, a response 503 and another reconnection leave \<^verbatim>\<open>7\<close>: the first
  request had no header, both reconnections carry \<^verbatim>\<open>7\<close>.
\<close>

theorem last_event_id_resumption_witness:
  "retryTimeout (example_open\<lparr>lastEventId := Some ''7'', retryTimeout := Some (Finite 3000)\<rparr>) \<noteq> None
   \<and> \<not> isClosed (example_open\<lparr>lastEventId := Some ''7'', retryTimeout := Some (Finite 3000)\<rparr>)
   \<and> map (\<lambda>fo. fo_headers fo ''Last-Event-ID'')
         (fetched (on_timeout example_options
            (example_open\<lparr>lastEventId := Some ''7'', retryTimeout := Some (Finite 3000)\<rparr>)))
       = [None, Some ''7'']
   \<and> cuts_of (buffer (fst (example_open\<lparr>lastEventId := Some ''7''\<rparr>, [])) @ ''id: 5\<newline>\<newline>id: 6\<newline>\<newline>'') =
       [(''id: 5'', ''id: 6\<newline>\<newline>'')] @ (''id: 6'', []) # []
   \<and> process_frames example_options [(''id: 5'', ''id: 6\<newline>\<newline>'')]
         ((fst (example_open\<lparr>lastEventId := Some ''7''\<rparr>, []))
            \<lparr>buffer := buffer (fst (example_open\<lparr>lastEventId := Some ''7''\<rparr>, []))
                         @ ''id: 5\<newline>\<newline>id: 6\<newline>\<newline>''\<rparr>)
         (snd (example_open\<lparr>lastEventId := Some ''7''\<rparr>, [])) =
       Returned (example_open\<lparr>lastEventId := Some ''5'', buffer := ''id: 6\<newline>\<newline>''\<rparr>, [])
   \<and> eventId (parseSSEEvent ''id: 6'') = Some ''6''
   \<and> lastEventId (fst (step example_options (example_open\<lparr>lastEventId := Some ''7''\<rparr>, [])
         (Read (Chunk ''id: 5\<newline>\<newline>id: 6\<newline>\<newline>'')))) = Some ''6''
   \<and> undisturbed writes_id example_options (example_open\<lparr>lastEventId := Some ''7''\<rparr>, [])
         [Read (Chunk ''data: x\<newline>\<newline>''), Read Done, Timeout,
          Response \<lparr>resp_status = 503, statusText = ''Service Unavailable'', resp_body = True\<rparr>, Timeout]
   \<and> lastEventId (fst (run example_options (example_open\<lparr>lastEventId := Some ''7''\<rparr>, [])
         [Read (Chunk ''data: x\<newline>\<newline>''), Read Done, Timeout,
          Response \<lparr>resp_status = 503, statusText = ''Service Unavailable'', resp_body = True\<rparr>, Timeout]))
       = Some ''7''
   \<and> map (\<lambda>fo. fo_headers fo ''Last-Event-ID'')
         (fetched (fst (run example_options (example_open\<lparr>lastEventId := Some ''7''\<rparr>, [])
            [Read (Chunk ''data: x\<newline>\<newline>''), Read Done, Timeout,
             Response \<lparr>resp_status = 503, statusText = ''Service Unavailable'', resp_body = True\<rparr>, Timeout])))
       = [None, Some ''7'', Some ''7'']"
proof -
  have h1: "retryTimeout (example_open\<lparr>lastEventId := Some ''7'', retryTimeout := Some (Finite 3000)\<rparr>) \<noteq> None
     \<and> \<not> isClosed (example_open\<lparr>lastEventId := Some ''7'', retryTimeout := Some (Finite 3000)\<rparr>)"
    by code_simp
  have r1: "map (\<lambda>fo. fo_headers fo ''Last-Event-ID'')
         (fetched (on_timeout example_options
            (example_open\<lparr>lastEventId := Some ''7'', retryTimeout := Some (Finite 3000)\<rparr>)))
       = [None, Some ''7'']"
    by code_simp
  have b: "buffer example_open = []"
    by code_simp
  have c: "cuts_of ''id: 5\<newline>\<newline>id: 6\<newline>\<newline>'' = [(''id: 5'', ''id: 6\<newline>\<newline>''), (''id: 6'', [])]"
    by code_simp
  have h2: "cuts_of (buffer (fst (example_open\<lparr>lastEventId := Some ''7''\<rparr>, [])) @ ''id: 5\<newline>\<newline>id: 6\<newline>\<newline>'') =
       [(''id: 5'', ''id: 6\<newline>\<newline>'')] @ (''id: 6'', []) # []"
    by (simp add: b c)
  have p5: "parseSSEEvent ''id: 5'' =
             \<lparr>eventName = ''message'', eventDataString = [], eventId = Some ''5'', retry = None\<rparr>"
    by code_simp
  have t5: "trim ''id: 5'' \<noteq> []"
    by code_simp
  have h3: "process_frames example_options [(''id: 5'', ''id: 6\<newline>\<newline>'')]
         ((fst (example_open\<lparr>lastEventId := Some ''7''\<rparr>, []))
            \<lparr>buffer := buffer (fst (example_open\<lparr>lastEventId := Some ''7''\<rparr>, []))
                         @ ''id: 5\<newline>\<newline>id: 6\<newline>\<newline>''\<rparr>)
         (snd (example_open\<lparr>lastEventId := Some ''7''\<rparr>, [])) =
       Returned (example_open\<lparr>lastEventId := Some ''5'', buffer := ''id: 6\<newline>\<newline>''\<rparr>, [])"
    by (simp add: t5 process_frame_def p5 note_id_and_retry_def)
  have h4: "eventId (parseSSEEvent ''id: 6'') = Some ''6''"
    by code_simp
  have h5: "undisturbed writes_id example_options (example_open\<lparr>lastEventId := Some ''7''\<rparr>, [])
         [Read (Chunk ''data: x\<newline>\<newline>''), Read Done, Timeout,
          Response \<lparr>resp_status = 503, statusText = ''Service Unavailable'', resp_body = True\<rparr>, Timeout]"
    by code_simp
  have r2: "map (\<lambda>fo. fo_headers fo ''Last-Event-ID'')
         (fetched (fst (run example_options (example_open\<lparr>lastEventId := Some ''7''\<rparr>, [])
            [Read (Chunk ''data: x\<newline>\<newline>''), Read Done, Timeout,
             Response \<lparr>resp_status = 503, statusText = ''Service Unavailable'', resp_body = True\<rparr>, Timeout])))
       = [None, Some ''7'', Some ''7'']"
    by code_simp
  note inst = last_event_id_resumption [where opts = example_options
        and s = "example_open\<lparr>lastEventId := Some ''7'', retryTimeout := Some (Finite 3000)\<rparr>"
        and \<sigma> = "(example_open\<lparr>lastEventId := Some ''7''\<rparr>, [])"
        and v = None and chunk = "''id: 5\<newline>\<newline>id: 6\<newline>\<newline>''"
        and pre = "[(''id: 5'', ''id: 6\<newline>\<newline>'')]" and f = "''id: 6''" and rest = "[]" and post = "[]"
        and \<tau> = "(example_open\<lparr>lastEventId := Some ''5'', buffer := ''id: 6\<newline>\<newline>''\<rparr>, [])"
        and i = "''6''"
        and inputs = "[Read (Chunk ''data: x\<newline>\<newline>''), Read Done, Timeout,
          Response \<lparr>resp_status = 503, statusText = ''Service Unavailable'', resp_body = True\<rparr>, Timeout]"]
  have w1: "lastEventId (fst (step example_options (example_open\<lparr>lastEventId := Some ''7''\<rparr>, [])
         (Read (Chunk ''id: 5\<newline>\<newline>id: 6\<newline>\<newline>'')))) = Some ''6''"
    using inst h2 h3 h4 by simp
  have w2: "lastEventId (fst (run example_options (example_open\<lparr>lastEventId := Some ''7''\<rparr>, [])
         [Read (Chunk ''data: x\<newline>\<newline>''), Read Done, Timeout,
          Response \<lparr>resp_status = 503, statusText = ''Service Unavailable'', resp_body = True\<rparr>, Timeout]))
       = Some ''7''"
    using inst h5 by simp
  from h1 r1 h2 h3 h4 w1 h5 w2 r2 show ?thesis
    by blast
qed

end
